theory Spec2Isabelle
  imports
    Main
    "HOL-Library.Char_ord"
    "HOL-Library.List_Lexorder"
    "HOL-Library.AList"
    "HOL-Library.Multiset"
begin

section \<open>The vk client transport: requests, responses and the client\<close>

text \<open>
  A shallow embedding of \<^verbatim>\<open>transport.go\<close> of the package \<^verbatim>\<open>vk\<close>. Go strings and byte
  slices are \<^typ>\<open>string\<close> (lists of 8-bit characters), \<^verbatim>\<open>url.Values\<close> (a Go map from a key
  to a slice of values) is an association list with distinct keys, a Go \<^verbatim>\<open>error\<close> is a value
  of the datatype \<open>error\<close> and a nil error is \<^const>\<open>None\<close>. A panic is the outcome
  \<open>Panics\<close>. The functions of the Go standard library that the source calls
  (\<^verbatim>\<open>net/url\<close>, \<^verbatim>\<open>path\<close>, \<^verbatim>\<open>net/http.NewRequest\<close>) are embedded as well, under their Go
  names; the JSON decoder of \<^verbatim>\<open>encoding/json\<close> is a parameter of the model.
\<close>

subsection \<open>Data model\<close>

type_synonym Values = "(string \<times> string list) list"

text \<open>The struct \<^verbatim>\<open>Request\<close>, as the source and its tests use it:
  \<^verbatim>\<open>Request{Token: "token", Method: "users.get", Values: values}\<close>.\<close>

record Request =
  Method :: string
  Token :: string
  Values :: Values

text \<open>Modelled from the spec: the struct \<^verbatim>\<open>Error\<close> that every decode target embeds is declared
  outside \<^verbatim>\<open>transport.go\<close>. The envelope's error field is an optional ErrorInfo (code, message,
  echoed request parameters), and the target retains a copy of the originating Request.\<close>

record ErrorInfo =
  Code :: int
  Message :: string
  Params :: "(string \<times> string) list"

record Error =
  Info :: "ErrorInfo option"
  Request :: Request

datatype error =
    ErrBadResponseCode
  | ErrEOF
  | ErrUnexpectedEOF
  | EscapeError string
  | ErrorString string
  | UrlError string string error
  | SyntaxError string
  | ErrServer ErrorInfo

datatype 'a outcome = Panics error | Returns 'a

text \<open>Modelled from the spec: the constants of the protocol are declared outside
  \<^verbatim>\<open>transport.go\<close>. The test of the source expects the URL
  \<^verbatim>\<open>https://api.vk.com/method/users.get?access_token=token&foo=bar&https=1&v=5.35\<close>.\<close>

definition defaultHost :: string where "defaultHost = ''api.vk.com''"
definition defaultScheme :: string where "defaultScheme = ''https''"
definition defaultPath :: string where "defaultPath = ''/method/''"
definition defaultMethod :: string where "defaultMethod = ''GET''"
definition defaultVersion :: string where "defaultVersion = ''5.35''"
definition defaultHTTPS :: string where "defaultHTTPS = ''1''"
definition paramVersion :: string where "paramVersion = ''v''"
definition paramHTTPS :: string where "paramHTTPS = ''https''"
definition paramToken :: string where "paramToken = ''access_token''"

subsection \<open>Go standard library: \<^verbatim>\<open>net/url\<close> escaping\<close>

text \<open>The functions of \<^verbatim>\<open>net/url\<close>, \<^verbatim>\<open>path\<close> and \<^verbatim>\<open>net/http\<close> below follow the Go sources of the
  time of \<^verbatim>\<open>transport.go\<close> (Go 1.4), in which \<^verbatim>\<open>http.NewRequest\<close> fails only when \<^verbatim>\<open>url.Parse\<close>
  does, as the comment in \<^verbatim>\<open>Request.HTTP\<close> says.\<close>

datatype encoding = encodePath | encodeUserPassword | encodeQueryComponent | encodeFragment

text \<open>The byte test \<^verbatim>\<open>lo <= c && c <= hi\<close> of the Go sources, on two byte literals.\<close>

definition inRange :: "char \<Rightarrow> char \<Rightarrow> char \<Rightarrow> bool" where
  "inRange c lo hi \<longleftrightarrow> lo \<le> c \<and> c \<le> hi"

definition isAlnum :: "char \<Rightarrow> bool" where
  "isAlnum c \<longleftrightarrow>
     inRange c (CHR ''A'') (CHR ''Z'') \<or> inRange c (CHR ''a'') (CHR ''z'') \<or>
     inRange c (CHR ''0'') (CHR ''9'')"

text \<open>\<^verbatim>\<open>shouldEscape(c, mode)\<close>: unreserved characters are never escaped, the reserved ones
  depend on the part of the URL, everything else is escaped.\<close>

definition shouldEscape :: "char \<Rightarrow> encoding \<Rightarrow> bool" where
  "shouldEscape c mode =
     (if isAlnum c then False
      else if c \<in> set ''-_.~'' then False
      else if c \<in> set ''$&+,/:;=?@'' then
        (case mode of
           encodePath \<Rightarrow> c = CHR ''?''
         | encodeUserPassword \<Rightarrow> c = CHR ''@'' \<or> c = CHR ''/'' \<or> c = CHR ''?'' \<or> c = CHR '':''
         | encodeQueryComponent \<Rightarrow> True
         | encodeFragment \<Rightarrow> False)
      else True)"

definition hexDigits :: string where "hexDigits = ''0123456789ABCDEF''"

text \<open>One byte of \<^verbatim>\<open>escape\<close>: \<^verbatim>\<open>c>>4\<close> and \<^verbatim>\<open>c&15\<close> of a byte are below 16, so both reads of
  the digit table are in range.\<close>

definition escapeByte :: "encoding \<Rightarrow> char \<Rightarrow> string" where
  "escapeByte mode c =
     (if c = CHR '' '' \<and> mode = encodeQueryComponent then ''+''
      else if shouldEscape c mode then
        [CHR ''%'', hexDigits ! ((of_char c :: nat) div 16), hexDigits ! ((of_char c :: nat) mod 16)]
      else [c])"

definition escape :: "string \<Rightarrow> encoding \<Rightarrow> string" where
  "escape s mode = concat (map (escapeByte mode) s)"

definition QueryEscape :: "string \<Rightarrow> string" where
  "QueryEscape s = escape s encodeQueryComponent"

definition ishex :: "char \<Rightarrow> bool" where
  "ishex c \<longleftrightarrow>
     inRange c (CHR ''0'') (CHR ''9'') \<or> inRange c (CHR ''a'') (CHR ''f'') \<or>
     inRange c (CHR ''A'') (CHR ''F'')"

definition unhex :: "char \<Rightarrow> nat" where
  "unhex c =
     (if inRange c (CHR ''0'') (CHR ''9'') then of_char c - of_char CHR ''0''
      else if inRange c (CHR ''a'') (CHR ''f'') then of_char c - of_char CHR ''a'' + 10
      else if inRange c (CHR ''A'') (CHR ''F'') then of_char c - of_char CHR ''A'' + 10
      else 0)"

text \<open>\<^verbatim>\<open>unescape(s, mode)\<close>: a percent sign must be followed by two hexadecimal digits; the
  error is the malformed escape, cut to three bytes.\<close>

fun unescape :: "string \<Rightarrow> encoding \<Rightarrow> error + string" where
  "unescape [] mode = Inr []"
| "unescape (c # s) mode =
     (if c = CHR ''%'' then
        (case s of
           h1 # h2 # t \<Rightarrow>
             (if ishex h1 \<and> ishex h2 then
                (case unescape t mode of
                   Inl e \<Rightarrow> Inl e
                 | Inr t' \<Rightarrow> Inr (char_of (unhex h1 * 16 + unhex h2) # t'))
              else Inl (EscapeError (take 3 (c # s))))
         | _ \<Rightarrow> Inl (EscapeError (take 3 (c # s))))
      else
        (case unescape s mode of
           Inl e \<Rightarrow> Inl e
         | Inr s' \<Rightarrow>
             Inr ((if c = CHR ''+'' \<and> mode = encodeQueryComponent then CHR '' '' else c) # s')))"

subsection \<open>Go standard library: \<^verbatim>\<open>url.Values\<close>\<close>

text \<open>\<^verbatim>\<open>v[key]\<close>: a missing key reads as the nil slice.\<close>

definition values_index :: "Values \<Rightarrow> string \<Rightarrow> string list" where
  "values_index v key = (case map_of v key of None \<Rightarrow> [] | Some vs \<Rightarrow> vs)"

text \<open>\<^verbatim>\<open>v[key] = vs\<close>.\<close>

definition values_assign :: "string \<Rightarrow> string list \<Rightarrow> Values \<Rightarrow> Values" where
  "values_assign key vs v = AList.update key vs v"

text \<open>\<^verbatim>\<open>Values.Add\<close>: \<^verbatim>\<open>v[key] = append(v[key], value)\<close>.\<close>

definition Values_Add :: "string \<Rightarrow> string \<Rightarrow> Values \<Rightarrow> Values" where
  "Values_Add key val v = values_assign key (values_index v key @ [val]) v"

text \<open>\<^verbatim>\<open>Values.Encode\<close>: the keys are sorted (\<^verbatim>\<open>sort.Strings\<close>, bytewise), and every value of
  every key is written as \<^verbatim>\<open>key=value\<close>, with an ampersand before it when the buffer is not
  empty.\<close>

definition Encode_value :: "string \<Rightarrow> string \<Rightarrow> string \<Rightarrow> string" where
  "Encode_value prefix buf x = (if buf \<noteq> [] then buf @ ''&'' else buf) @ prefix @ QueryEscape x"

definition Encode_key :: "Values \<Rightarrow> string \<Rightarrow> string \<Rightarrow> string" where
  "Encode_key v buf k = foldl (Encode_value (QueryEscape k @ ''='')) buf (values_index v k)"

definition Values_Encode :: "Values \<Rightarrow> string" where
  "Values_Encode v = foldl (Encode_key v) [] (sort (map fst v))"

subsection \<open>Go standard library: \<^verbatim>\<open>path.Join\<close> and \<^verbatim>\<open>path.Clean\<close>\<close>

text \<open>The inner loop of the \<^verbatim>\<open>..\<close> case of \<^verbatim>\<open>Clean\<close>: after \<^verbatim>\<open>out.w--\<close>, step back while
  \<^verbatim>\<open>out.w > dotdot && out.index(out.w) != '/'\<close>. The index read is below the old length.\<close>

function backtrack :: "nat \<Rightarrow> string \<Rightarrow> nat \<Rightarrow> nat" where
  "backtrack dotdot buf w =
     (if w > dotdot \<and> buf ! w \<noteq> CHR ''/'' then backtrack dotdot buf (w - 1) else w)"
  by pat_completeness auto
termination
  by (relation "measure (\<lambda>(dotdot, buf, w). w)") auto

declare backtrack.simps [simp del]

definition notSlash :: "char \<Rightarrow> bool" where
  "notSlash c \<longleftrightarrow> c \<noteq> CHR ''/''"

text \<open>The main loop of \<^verbatim>\<open>Clean\<close> over the unread input: \<open>out\<close> is the buffer written so
  far (\<^verbatim>\<open>out.w\<close> is its length).\<close>

function clean_loop :: "bool \<Rightarrow> nat \<Rightarrow> string \<Rightarrow> string \<Rightarrow> string" where
  "clean_loop rooted dotdot out [] = out"
| "clean_loop rooted dotdot out (c # rest) =
     (if c = CHR ''/'' then clean_loop rooted dotdot out rest
      else if c = CHR ''.'' \<and> (case rest of [] \<Rightarrow> True | d # _ \<Rightarrow> d = CHR ''/'') then
        clean_loop rooted dotdot out rest
      else if c = CHR ''.'' \<and>
          (case rest of
             [] \<Rightarrow> False
           | d # rest2 \<Rightarrow> d = CHR ''.'' \<and> (case rest2 of [] \<Rightarrow> True | e # _ \<Rightarrow> e = CHR ''/'')) then
        (if length out > dotdot then
           clean_loop rooted dotdot (take (backtrack dotdot out (length out - 1)) out) (tl rest)
         else if \<not> rooted then
           (let out' = (if length out > 0 then out @ ''/'' else out) @ ''..''
            in clean_loop rooted (length out') out' (tl rest))
         else clean_loop rooted dotdot out (tl rest))
      else
        (let out' = (if rooted \<and> length out \<noteq> 1 \<or> \<not> rooted \<and> length out \<noteq> 0
                     then out @ ''/'' else out)
         in clean_loop rooted dotdot (out' @ takeWhile notSlash (c # rest))
              (dropWhile notSlash rest)))"
  by pat_completeness auto
termination
  by (relation "measure (\<lambda>(rooted, dotdot, out, rest). length rest)")
    (auto simp: less_Suc_eq_le length_dropWhile_le)

definition Clean :: "string \<Rightarrow> string" where
  "Clean path =
     (case path of
        [] \<Rightarrow> ''.''
      | c # rest \<Rightarrow>
          (let rooted = (c = CHR ''/'');
               out = (if rooted then clean_loop True 1 ''/'' rest
                      else clean_loop False 0 [] path)
           in if length out = 0 then ''.'' else out))"

fun strings_Join :: "string list \<Rightarrow> string \<Rightarrow> string" where
  "strings_Join [] sep = []"
| "strings_Join [a] sep = a"
| "strings_Join (a # b # elems) sep = a @ sep @ strings_Join (b # elems) sep"

text \<open>\<^verbatim>\<open>path.Join\<close>: leading empty elements are dropped, the others are joined with a slash
  and cleaned.\<close>

definition path_Join :: "string list \<Rightarrow> string" where
  "path_Join elem =
     (case dropWhile (\<lambda>e. e = []) elem of
        [] \<Rightarrow> []
      | es \<Rightarrow> Clean (strings_Join es ''/''))"

subsection \<open>Go standard library: \<^verbatim>\<open>url.URL\<close>, \<^verbatim>\<open>url.Parse\<close> and \<^verbatim>\<open>http.NewRequest\<close>\<close>

record Userinfo =
  username :: string
  password :: "string option"

record URL =
  Scheme :: string
  Opaque :: string
  User :: "Userinfo option"
  Host :: string
  Path :: string
  RawQuery :: string
  Fragment :: string

text \<open>The zero value \<^verbatim>\<open>url.URL{}\<close>.\<close>

definition emptyURL :: URL where
  "emptyURL = \<lparr>Scheme = [], Opaque = [], User = None, Host = [], Path = [], RawQuery = [],
     Fragment = []\<rparr>"

definition Userinfo_String :: "Userinfo \<Rightarrow> string" where
  "Userinfo_String ui =
     (case password ui of
        None \<Rightarrow> escape (username ui) encodeUserPassword
      | Some p \<Rightarrow> escape (username ui) encodeUserPassword @ '':'' @ escape p encodeUserPassword)"

text \<open>\<^verbatim>\<open>URL.String\<close>: scheme, then the opaque part or else authority and escaped path, then
  query and fragment.\<close>

definition URL_String :: "URL \<Rightarrow> string" where
  "URL_String u =
     (if Scheme u \<noteq> [] then Scheme u @ '':'' else []) @
     (if Opaque u \<noteq> [] then Opaque u
      else
        (if Scheme u \<noteq> [] \<or> Host u \<noteq> [] \<or> User u \<noteq> None then
           ''//'' @ (case User u of None \<Rightarrow> [] | Some ui \<Rightarrow> Userinfo_String ui @ ''@'') @ Host u
         else []) @
        (if Path u \<noteq> [] \<and> hd (Path u) \<noteq> CHR ''/'' \<and> Host u \<noteq> [] then ''/'' else []) @
        escape (Path u) encodePath) @
     (if RawQuery u \<noteq> [] then ''?'' @ RawQuery u else []) @
     (if Fragment u \<noteq> [] then ''#'' @ escape (Fragment u) encodeFragment else [])"

text \<open>\<^verbatim>\<open>split(s, c, cutc)\<close> cuts \<open>s\<close> at the first occurrence of \<open>c\<close>, which is one byte at
  every call.\<close>

definition split :: "string \<Rightarrow> char \<Rightarrow> bool \<Rightarrow> string \<times> string" where
  "split s c cutc =
     (if c \<notin> set s then (s, [])
      else (takeWhile (\<lambda>x. x \<noteq> c) s,
            (if cutc then drop 1 (dropWhile (\<lambda>x. x \<noteq> c) s) else dropWhile (\<lambda>x. x \<noteq> c) s)))"

definition strings_HasPrefix :: "string \<Rightarrow> string \<Rightarrow> bool" where
  "strings_HasPrefix s pre \<longleftrightarrow> take (length pre) s = pre"

text \<open>\<^verbatim>\<open>getscheme\<close>: the loop over the bytes of the URL, \<open>seen\<close> being the bytes before the
  index \<^verbatim>\<open>i\<close>.\<close>

fun getscheme_loop :: "string \<Rightarrow> string \<Rightarrow> string \<Rightarrow> error + string \<times> string" where
  "getscheme_loop rawurl seen [] = Inr ([], rawurl)"
| "getscheme_loop rawurl seen (c # rest) =
     (if inRange c (CHR ''a'') (CHR ''z'') \<or> inRange c (CHR ''A'') (CHR ''Z'') then
        getscheme_loop rawurl (seen @ [c]) rest
      else if inRange c (CHR ''0'') (CHR ''9'') \<or> c = CHR ''+'' \<or> c = CHR ''-'' \<or> c = CHR ''.'' then
        (if seen = [] then Inr ([], rawurl) else getscheme_loop rawurl (seen @ [c]) rest)
      else if c = CHR '':'' then
        (if seen = [] then Inl (ErrorString ''missing protocol scheme'') else Inr (seen, rest))
      else Inr ([], rawurl))"

definition getscheme :: "string \<Rightarrow> error + string \<times> string" where
  "getscheme rawurl = getscheme_loop rawurl [] rawurl"

definition toLowerByte :: "char \<Rightarrow> char" where
  "toLowerByte c =
     (if inRange c (CHR ''A'') (CHR ''Z'') then char_of ((of_char c :: nat) + 32) else c)"

text \<open>\<^verbatim>\<open>strings.LastIndex(authority, "@")\<close>, as the two parts around the last at sign.\<close>

definition splitLast :: "string \<Rightarrow> char \<Rightarrow> (string \<times> string) option" where
  "splitLast s c =
     (if c \<notin> set s then None
      else Some (rev (drop 1 (dropWhile (\<lambda>x. x \<noteq> c) (rev s))), rev (takeWhile (\<lambda>x. x \<noteq> c) (rev s))))"

definition parseAuthority :: "string \<Rightarrow> error + Userinfo option \<times> string" where
  "parseAuthority authority =
     (case splitLast authority CHR ''@'' of
        None \<Rightarrow> Inr (None, authority)
      | Some (userinfo, host) \<Rightarrow>
          (if CHR '':'' \<notin> set userinfo then
             (case unescape userinfo encodeUserPassword of
                Inl e \<Rightarrow> Inl e
              | Inr u \<Rightarrow> Inr (Some \<lparr>username = u, password = None\<rparr>, host))
           else
             (let (un, pw) = split userinfo CHR '':'' True in
              case unescape un encodeUserPassword of
                Inl e \<Rightarrow> Inl e
              | Inr u \<Rightarrow>
                  (case unescape pw encodeUserPassword of
                     Inl e \<Rightarrow> Inl e
                   | Inr p \<Rightarrow> Inr (Some \<lparr>username = u, password = Some p\<rparr>, host)))))"

text \<open>\<^verbatim>\<open>stringContainsCTLByte\<close>: an ASCII control byte is below \<^verbatim>\<open>' '\<close> or is \<^verbatim>\<open>0x7f\<close>.\<close>

definition isCTLByte :: "char \<Rightarrow> bool" where
  "isCTLByte b \<longleftrightarrow> b < CHR '' '' \<or> b = CHR 0x7F"

definition stringContainsCTLByte :: "string \<Rightarrow> bool" where
  "stringContainsCTLByte s = list_ex isCTLByte s"

text \<open>\<^verbatim>\<open>parse(rawurl, viaRequest)\<close>; every error is wrapped as
  \<^verbatim>\<open>&Error{"parse", rawurl, err}\<close>. The releases of Go since 1.12 refuse a URL with a control
  byte before anything else; the older ones have no such check, and accept more.\<close>

definition parse :: "string \<Rightarrow> bool \<Rightarrow> error + URL" where
  "parse rawurl viaRequest =
     (if stringContainsCTLByte rawurl then
        Inl (UrlError ''parse'' rawurl (ErrorString ''net/url: invalid control character in URL''))
      else if rawurl = [] \<and> viaRequest then
        Inl (UrlError ''parse'' rawurl (ErrorString ''empty url''))
      else if rawurl = ''*'' then Inr (emptyURL\<lparr>Path := ''*''\<rparr>)
      else
        (case getscheme rawurl of
           Inl e \<Rightarrow> Inl (UrlError ''parse'' rawurl e)
         | Inr (scheme, rest0) \<Rightarrow>
             (let url = emptyURL\<lparr>Scheme := map toLowerByte scheme\<rparr>;
                  (rest, query) = split rest0 CHR ''?'' True;
                  url = url\<lparr>RawQuery := query\<rparr>
              in if \<not> strings_HasPrefix rest ''/'' \<and> Scheme url \<noteq> [] then Inr (url\<lparr>Opaque := rest\<rparr>)
                 else if \<not> strings_HasPrefix rest ''/'' \<and> viaRequest then
                   Inl (UrlError ''parse'' rawurl (ErrorString ''invalid URI for request''))
                 else if (Scheme url \<noteq> [] \<or> \<not> viaRequest \<and> \<not> strings_HasPrefix rest ''///'') \<and>
                     strings_HasPrefix rest ''//'' then
                   (let (authority, rest') = split (drop 2 rest) CHR ''/'' False in
                    case parseAuthority authority of
                      Inl e \<Rightarrow> Inl (UrlError ''parse'' rawurl e)
                    | Inr (user, host) \<Rightarrow>
                        (if CHR ''%'' \<in> set host then
                           Inl (UrlError ''parse'' rawurl
                             (ErrorString ''hexadecimal escape in host''))
                         else
                           (case unescape rest' encodePath of
                              Inl e \<Rightarrow> Inl (UrlError ''parse'' rawurl e)
                            | Inr p \<Rightarrow> Inr (url\<lparr>User := user, Host := host, Path := p\<rparr>))))
                 else
                   (case unescape rest encodePath of
                      Inl e \<Rightarrow> Inl (UrlError ''parse'' rawurl e)
                    | Inr p \<Rightarrow> Inr (url\<lparr>Path := p\<rparr>)))))"

text \<open>\<^verbatim>\<open>url.Parse\<close>: the fragment is cut off first and unescaped last.\<close>

definition Parse :: "string \<Rightarrow> error + URL" where
  "Parse rawurl =
     (let (u, frag) = split rawurl CHR ''#'' True in
      case parse u False of
        Inl e \<Rightarrow> Inl e
      | Inr url \<Rightarrow>
          (if frag = [] then Inr url
           else
             (case unescape frag encodeFragment of
                Inl e \<Rightarrow> Inl (UrlError ''parse'' rawurl e)
              | Inr f \<Rightarrow> Inr (url\<lparr>Fragment := f\<rparr>))))"

text \<open>The fields of \<^verbatim>\<open>http.Request\<close> that \<^verbatim>\<open>http.NewRequest\<close> derives from its arguments; the
  body is nil at its only call.\<close>

record http_Request =
  req_Method :: string
  req_URL :: URL
  req_Host :: string

text \<open>\<^verbatim>\<open>http.NewRequest(method, urlStr, nil)\<close> returns a request and a nil error, or nil and
  the error of \<^verbatim>\<open>url.Parse\<close>.\<close>

definition http_NewRequest :: "string \<Rightarrow> string \<Rightarrow> http_Request option \<times> error option" where
  "http_NewRequest method urlStr =
     (case Parse urlStr of
        Inl err \<Rightarrow> (None, Some err)
      | Inr u \<Rightarrow> (Some \<lparr>req_Method = method, req_URL = u, req_Host = Host u\<rparr>, None))"

subsection \<open>\<^verbatim>\<open>must\<close> and \<^verbatim>\<open>Request.HTTP\<close>\<close>

text \<open>\<^verbatim>\<open>must\<close> panics on a non-nil error.\<close>

definition must :: "error option \<Rightarrow> unit outcome" where
  "must err = (case err of Some e \<Rightarrow> Panics e | None \<Rightarrow> Returns ())"

text \<open>The loop \<^verbatim>\<open>for k, v := range r.Values { values[k] = v }\<close>.\<close>

definition copyParams :: "Values \<Rightarrow> Values \<Rightarrow> Values" where
  "copyParams src values = foldl (\<lambda>m (k, v). values_assign k v m) values src"

text \<open>The parameter set of \<^verbatim>\<open>Request.HTTP\<close> before it is encoded.\<close>

definition HTTP_values :: "Request \<Rightarrow> Values" where
  "HTTP_values r =
     (let values = copyParams (Values r) [];
          values = Values_Add paramVersion defaultVersion values;
          values = Values_Add paramHTTPS defaultHTTPS values
      in if length (Token r) \<noteq> 0 then Values_Add paramToken (Token r) values else values)"

text \<open>The URL \<^verbatim>\<open>u\<close> of \<^verbatim>\<open>Request.HTTP\<close>.\<close>

definition HTTP_url :: "Request \<Rightarrow> URL" where
  "HTTP_url r =
     emptyURL\<lparr>Host := defaultHost, Scheme := defaultScheme,
       Path := path_Join [defaultPath, Method r],
       RawQuery := Values_Encode (HTTP_values r)\<rparr>"

definition HTTP :: "Request \<Rightarrow> http_Request option outcome" where
  "HTTP r =
     (let (req, err) = http_NewRequest defaultMethod (URL_String (HTTP_url r)) in
      case must err of
        Panics e \<Rightarrow> Panics e
      | Returns _ \<Rightarrow> Returns req)"

subsection \<open>Raw fragments\<close>

type_synonym Raw = string

definition Raw_Bytes :: "Raw \<Rightarrow> string" where
  "Raw_Bytes r = r"

definition Raw_String :: "Raw \<Rightarrow> string" where
  "Raw_String r = r"

text \<open>\<^verbatim>\<open>MarshalJSON\<close> returns the fragment and a nil error.\<close>

definition Raw_MarshalJSON :: "Raw \<Rightarrow> string \<times> error option" where
  "Raw_MarshalJSON m = (m, None)"

text \<open>\<^verbatim>\<open>UnmarshalJSON\<close> on the receiver \<^verbatim>\<open>*m\<close>: the new value of the receiver and a nil error.\<close>

definition Raw_UnmarshalJSON :: "Raw \<Rightarrow> string \<Rightarrow> Raw \<times> error option" where
  "Raw_UnmarshalJSON m data = (data, None)"

subsection \<open>The response contract and the response processor\<close>

text \<open>The interface \<^verbatim>\<open>Response\<close>, as the record of its two methods on a target of type \<open>'r\<close>.
  \<^verbatim>\<open>setRequest\<close> has a pointer receiver: it returns the updated target.\<close>

record 'r Response =
  ServerError :: "'r \<Rightarrow> error option"
  setRequest :: "Request \<Rightarrow> 'r \<Rightarrow> 'r"

text \<open>Modelled from the spec: the methods of the embedded struct \<^verbatim>\<open>Error\<close> are declared outside
  \<^verbatim>\<open>transport.go\<close>. The target reports a classified error exactly when its error field is
  populated, and it retains a copy of the originating Request.\<close>

definition Error_methods :: "Error Response" where
  "Error_methods =
     \<lparr>ServerError = (\<lambda>e. map_option ErrServer (Info e)),
      setRequest = (\<lambda>q e. e\<lparr>Request := q\<rparr>)\<rparr>"

record RawResponse =
  Error :: Error
  Response :: Raw

text \<open>The zero value \<^verbatim>\<open>RawResponse{}\<close>.\<close>

definition emptyRawResponse :: RawResponse where
  "emptyRawResponse =
     \<lparr>Error = \<lparr>Info = None, Request = \<lparr>Method = [], Token = [], Values = []\<rparr>\<rparr>,
      Response = []\<rparr>"

text \<open>\<^verbatim>\<open>RawResponse\<close> embeds \<^verbatim>\<open>Error\<close>, whose methods are promoted to it.\<close>

definition RawResponse_methods :: "Error Response \<Rightarrow> RawResponse Response" where
  "RawResponse_methods em =
     \<lparr>ServerError = (\<lambda>r. ServerError em (Error r)),
      setRequest = (\<lambda>q r. r\<lparr>Error := setRequest em q (Error r)\<rparr>)\<rparr>"

text \<open>An \<^verbatim>\<open>io.Reader\<close>: the bytes it produces, the failure it reports after them (none is a
  clean end of file), and whether it is an \<^verbatim>\<open>io.ReadCloser\<close> as well.\<close>

record Reader =
  rd_data :: string
  rd_err :: "error option"
  rd_closer :: bool

text \<open>The \<^verbatim>\<open>errorReader\<close> of the tests: every read fails with \<^verbatim>\<open>io.ErrUnexpectedEOF\<close>, and it
  has a \<^verbatim>\<open>Close\<close> method.\<close>

definition errorReader :: Reader where
  "errorReader = \<lparr>rd_data = [], rd_err = Some ErrUnexpectedEOF, rd_closer = True\<rparr>"

text \<open>What the processor and the client do, in order.\<close>

datatype event = EvSetRequest | EvTransport | EvDecode | EvServerError | EvClose | EvUnmarshal

record 'r Result =
  res_err :: "error option"
  res_target :: 'r
  res_trace :: "event list"

text \<open>\<^verbatim>\<open>json.NewDecoder(input).Decode(target)\<close>. A stream that produces no byte makes
  \<^verbatim>\<open>Decode\<close> return the failure of the read (\<^verbatim>\<open>io.EOF\<close> at a clean end) and leaves the target
  as it is; on any other stream the decoder of \<^verbatim>\<open>encoding/json\<close> is the parameter \<open>dec\<close>, from
  the bytes, the failure after them and the target to the target and the error.\<close>

definition json_Decode ::
  "(string \<Rightarrow> error option \<Rightarrow> 'r \<Rightarrow> 'r \<times> error option) \<Rightarrow> Reader \<Rightarrow> 'r \<Rightarrow> 'r \<times> error option" where
  "json_Decode dec rd v =
     (if rd_data rd = [] then (v, Some (case rd_err rd of Some e \<Rightarrow> e | None \<Rightarrow> ErrEOF))
      else dec (rd_data rd) (rd_err rd) v)"

text \<open>\<^verbatim>\<open>json.Unmarshal(data, v)\<close>. Empty input is rejected by the validity check before
  anything is decoded; on other input the decoder is the parameter \<open>unm\<close>.\<close>

definition json_Unmarshal ::
  "(string \<Rightarrow> 'v \<Rightarrow> 'v \<times> error option) \<Rightarrow> string \<Rightarrow> 'v \<Rightarrow> 'v \<times> error option" where
  "json_Unmarshal unm data v =
     (if data = [] then (v, Some (SyntaxError ''unexpected end of JSON input''))
      else unm data v)"

record vkResponseProcessor =
  input :: Reader

definition Process :: "Reader \<Rightarrow> vkResponseProcessor" where
  "Process inp = \<lparr>input = inp\<rparr>"

text \<open>\<^verbatim>\<open>To\<close>: the deferred \<^verbatim>\<open>rc.Close()\<close> runs when the function returns, on every path.\<close>

definition To ::
  "(string \<Rightarrow> error option \<Rightarrow> 'r \<Rightarrow> 'r \<times> error option) \<Rightarrow> 'r Response \<Rightarrow> vkResponseProcessor \<Rightarrow> 'r
    \<Rightarrow> 'r Result" where
  "To dec methods d response =
     (let deferred = (if rd_closer (input d) then [EvClose] else []);
          (response', err) = json_Decode dec (input d) response
      in case err of
           Some e \<Rightarrow>
             \<lparr>res_err = Some e, res_target = response', res_trace = [EvDecode] @ deferred\<rparr>
         | None \<Rightarrow>
             \<lparr>res_err = ServerError methods response', res_target = response',
              res_trace = [EvDecode, EvServerError] @ deferred\<rparr>)"

text \<open>\<^verbatim>\<open>Raw\<close>: \<open>em\<close> is the method set of the embedded \<^verbatim>\<open>Error\<close>, \<open>v\<close> the caller's target.\<close>

definition Raw ::
  "(string \<Rightarrow> error option \<Rightarrow> RawResponse \<Rightarrow> RawResponse \<times> error option) \<Rightarrow>
   (string \<Rightarrow> 'v \<Rightarrow> 'v \<times> error option) \<Rightarrow> Error Response \<Rightarrow> vkResponseProcessor \<Rightarrow> 'v
    \<Rightarrow> 'v Result" where
  "Raw dec unm em d v =
     (let raw = emptyRawResponse;
          r = To dec (RawResponse_methods em) d raw
      in case res_err r of
           Some e \<Rightarrow> \<lparr>res_err = Some e, res_target = v, res_trace = res_trace r\<rparr>
         | None \<Rightarrow>
             (let (v', err) = json_Unmarshal unm (Raw_Bytes (Response (res_target r))) v
              in \<lparr>res_err = err, res_target = v', res_trace = res_trace r @ [EvUnmarshal]\<rparr>))"

subsection \<open>Go standard library: decoding an envelope with \<^verbatim>\<open>encoding/json\<close>\<close>

text \<open>How \<^verbatim>\<open>Decode\<close> fills a struct whose fields are tagged \<^verbatim>\<open>error\<close> and \<^verbatim>\<open>response\<close>, as every
  decode target of the package is. The scanner of the library is a parameter: from the bytes of
  the stream and the failure after them it gives the members of the top-level object in their
  order, each a key and the bytes of its value, or the error of the decoder (malformed JSON, a
  failed read, a value that is not an object). The whole value is scanned before anything is
  stored in the target.\<close>

type_synonym scanner = "string \<Rightarrow> error option \<Rightarrow> error + (string \<times> string) list"

datatype field = FieldError | FieldResponse

text \<open>The field a key is stored in, the fields being \<^verbatim>\<open>error\<close> and \<^verbatim>\<open>response\<close> in the order of
  the struct: a field whose name is the key wins, else the first field whose name matches the
  key under the case folding of the library, the parameter \<open>equalFold\<close>; a key that matches no field
  is skipped.\<close>

definition fieldOf :: "(string \<Rightarrow> string \<Rightarrow> bool) \<Rightarrow> string \<Rightarrow> field option" where
  "fieldOf equalFold key =
     (if key = ''error'' then Some FieldError
      else if key = ''response'' then Some FieldResponse
      else if equalFold ''error'' key then Some FieldError
      else if equalFold ''response'' key then Some FieldResponse
      else None)"

text \<open>What storing one value does: it succeeds, or its error is saved while the decoding goes
  on (a value of the wrong type), or it ends the decoding (the error of an \<^verbatim>\<open>Unmarshaler\<close>).\<close>

datatype 'r stored = Stored 'r | Saved 'r error | Aborted 'r error

record 'r Fields =
  decodeError :: "string \<Rightarrow> 'r \<Rightarrow> 'r stored"
  decodeResponse :: "string \<Rightarrow> 'r \<Rightarrow> 'r stored"

text \<open>The loop over the members of the object; \<open>saved\<close> is the first saved error, which
  \<^verbatim>\<open>Decode\<close> returns at the end.\<close>

fun decodeMembers ::
  "(string \<Rightarrow> string \<Rightarrow> bool) \<Rightarrow> 'r Fields \<Rightarrow> (string \<times> string) list \<Rightarrow> 'r \<Rightarrow> error option
    \<Rightarrow> 'r \<times> error option" where
  "decodeMembers equalFold layout [] target saved = (target, saved)"
| "decodeMembers equalFold layout (m # ms) target saved =
     (case fieldOf equalFold (fst m) of
        None \<Rightarrow> decodeMembers equalFold layout ms target saved
      | Some f \<Rightarrow>
          (case (case f of
                   FieldError \<Rightarrow> decodeError layout (snd m) target
                 | FieldResponse \<Rightarrow> decodeResponse layout (snd m) target) of
             Stored t \<Rightarrow> decodeMembers equalFold layout ms t saved
           | Saved t e \<Rightarrow>
               decodeMembers equalFold layout ms t (if saved = None then Some e else saved)
           | Aborted t e \<Rightarrow> (t, Some e)))"

text \<open>The decoder of a stream that has produced bytes, for a target with these fields.\<close>

definition decodeEnvelope ::
  "scanner \<Rightarrow> (string \<Rightarrow> string \<Rightarrow> bool) \<Rightarrow> 'r Fields \<Rightarrow> string \<Rightarrow> error option \<Rightarrow> 'r
    \<Rightarrow> 'r \<times> error option" where
  "decodeEnvelope scan equalFold layout data fail target =
     (case scan data fail of
        Inl e \<Rightarrow> (target, Some e)
      | Inr ms \<Rightarrow> decodeMembers equalFold layout ms target None)"

text \<open>The fields of \<^verbatim>\<open>RawResponse\<close>. The error object is decoded into the embedded \<^verbatim>\<open>Error\<close> by the
  library, the parameter \<open>decError\<close>. The field \<^verbatim>\<open>Response\<close> is a \<^verbatim>\<open>Raw\<close>, an \<^verbatim>\<open>Unmarshaler\<close>: its
  \<^verbatim>\<open>UnmarshalJSON\<close> is called with the bytes of the value.\<close>

definition RawResponse_fields ::
  "(string \<Rightarrow> Error \<Rightarrow> Error \<times> error option) \<Rightarrow> RawResponse Fields" where
  "RawResponse_fields decError =
     \<lparr>decodeError = (\<lambda>val raw.
        case decError val (Error raw) of
          (e, None) \<Rightarrow> Stored (raw\<lparr>Error := e\<rparr>)
        | (e, Some err) \<Rightarrow> Saved (raw\<lparr>Error := e\<rparr>) err),
      decodeResponse = (\<lambda>val raw.
        case Raw_UnmarshalJSON (Response raw) val of
          (m, None) \<Rightarrow> Stored (raw\<lparr>Response := m\<rparr>)
        | (m, Some err) \<Rightarrow> Aborted (raw\<lparr>Response := m\<rparr>) err)\<rparr>"

text \<open>For the examples: a scanner that knows one document, a case folding of ASCII letters,
  an envelope with neither field and an envelope with a response.\<close>

definition scanOf :: "string \<Rightarrow> (string \<times> string) list \<Rightarrow> scanner" where
  "scanOf body ms = (\<lambda>data fail.
     if data = body then Inr ms else Inl (SyntaxError ''invalid character''))"

definition asciiFold :: "string \<Rightarrow> string \<Rightarrow> bool" where
  "asciiFold name key \<longleftrightarrow> map toLowerByte key = map toLowerByte name"

definition okBody :: string where
  \<open>okBody = ''{"ok":1}''\<close>

definition listBody :: string where
  \<open>listBody = ''{"response":[1]}''\<close>

subsection \<open>The client\<close>

record http_Response =
  StatusCode :: int
  Body :: Reader

definition StatusOK :: int where
  "StatusOK = 200"

text \<open>The struct \<^verbatim>\<open>Client\<close> is declared outside \<^verbatim>\<open>transport.go\<close>; the source reads its field
  \<^verbatim>\<open>httpClient\<close>, an \<^verbatim>\<open>HTTPClient\<close>: a function from the request to the response pointer and the
  error.\<close>

record Client =
  httpClient :: "http_Request option \<Rightarrow> http_Response option \<times> error option"

record 'r DoResult =
  do_out :: "error option outcome"
  do_target :: 'r
  do_trace :: "event list"

text \<open>\<^verbatim>\<open>Client.Do\<close>. Reading \<^verbatim>\<open>res.StatusCode\<close> through a nil pointer panics.\<close>

definition Do ::
  "(string \<Rightarrow> error option \<Rightarrow> 'r \<Rightarrow> 'r \<times> error option) \<Rightarrow> 'r Response \<Rightarrow> Client \<Rightarrow> Request \<Rightarrow> 'r
    \<Rightarrow> 'r DoResult" where
  "Do dec methods c request response =
     (let response1 = setRequest methods request response in
      case HTTP request of
        Panics e \<Rightarrow> \<lparr>do_out = Panics e, do_target = response1, do_trace = [EvSetRequest]\<rparr>
      | Returns req \<Rightarrow>
          (let (res, err) = httpClient c req in
           case err of
             Some e \<Rightarrow>
               \<lparr>do_out = Returns (Some e), do_target = response1,
                do_trace = [EvSetRequest, EvTransport]\<rparr>
           | None \<Rightarrow>
               (case res of
                  None \<Rightarrow>
                    \<lparr>do_out = Panics (ErrorString ''nil pointer dereference''),
                     do_target = response1, do_trace = [EvSetRequest, EvTransport]\<rparr>
                | Some res' \<Rightarrow>
                    (if StatusCode res' \<noteq> StatusOK then
                       \<lparr>do_out = Returns (Some ErrBadResponseCode), do_target = response1,
                        do_trace = [EvSetRequest, EvTransport]\<rparr>
                     else
                       (let r = To dec methods (Process (Body res')) response1
                        in \<lparr>do_out = Returns (res_err r), do_target = res_target r,
                            do_trace = [EvSetRequest, EvTransport] @ res_trace r\<rparr>)))))"

text \<open>A decoded envelope with a populated error object, as in the tests of the source.\<close>

definition serverErrorBody :: RawResponse where
  "serverErrorBody =
     emptyRawResponse\<lparr>Error := \<lparr>Info = Some \<lparr>Code = 10, Message = ''Internal server error'',
       Params = [(''oauth'', ''1'')]\<rparr>, Request = \<lparr>Method = [], Token = [], Values = []\<rparr>\<rparr>\<rparr>"

subsection \<open>The query string as a list of pairs\<close>

text \<open>A byte that escaping always replaces and that is not written as a part of an escape
  or as a separator of the query: it occurs neither in an escaped path nor in an encoded
  parameter set.\<close>

definition neverWritten :: "char \<Rightarrow> bool" where
  "neverWritten x \<longleftrightarrow>
     (shouldEscape x encodePath \<and> shouldEscape x encodeQueryComponent) \<and>
     x \<notin> set hexDigits \<and> x \<notin> set ''%+&=''"


text \<open>One pair of a form-encoded query, \<^verbatim>\<open>key=value\<close> with both sides escaped, and a list of
  pairs joined by ampersands.\<close>

definition formPair :: "string \<times> string \<Rightarrow> string" where
  "formPair p = QueryEscape (fst p) @ ''='' @ QueryEscape (snd p)"

definition formEncode :: "(string \<times> string) list \<Rightarrow> string" where
  "formEncode ps = strings_Join (map formPair ps) ''&''"

text \<open>The pairs of a parameter set for a list of keys: every value of every key, in the order
  of the keys; and the pairs in the order \<^verbatim>\<open>Encode\<close> writes them, the keys sorted.\<close>

definition pairsOf :: "Values \<Rightarrow> string list \<Rightarrow> (string \<times> string) list" where
  "pairsOf v keys = concat (map (\<lambda>k. map (Pair k) (values_index v k)) keys)"

definition encodedPairs :: "Values \<Rightarrow> (string \<times> string) list" where
  "encodedPairs v = pairsOf v (sort (map fst v))"

text \<open>The pairs of a parameter set in the order of the association list: the caller's
  parameters in their original order.\<close>

definition flatten :: "Values \<Rightarrow> (string \<times> string) list" where
  "flatten v = concat (map (\<lambda>(k, vs). map (Pair k) vs) v)"

text \<open>The specification's reading of the query string, to be compared with the source: the
  caller's parameters in their original order, followed by the protocol parameters in fixed
  order: version, https flag and, when the token is not empty, the access token.\<close>

definition protocolPairs :: "Request \<Rightarrow> (string \<times> string) list" where
  "protocolPairs r =
     [(paramVersion, defaultVersion), (paramHTTPS, defaultHTTPS)] @
     (if length (Token r) \<noteq> 0 then [(paramToken, Token r)] else [])"

definition spec_query_pairs :: "Request \<Rightarrow> (string \<times> string) list" where
  "spec_query_pairs r = flatten (Values r) @ protocolPairs r"

definition spec_query :: "Request \<Rightarrow> string" where
  "spec_query r = formEncode (spec_query_pairs r)"

text \<open>The request of the tests of the source, and a request whose parameters use the reserved
  key of the version.\<close>

definition testRequest :: Request where
  "testRequest = \<lparr>Method = ''users.get'', Token = ''token'', Values = [(''foo'', [''bar''])]\<rparr>"

definition collidingRequest :: Request where
  "collidingRequest = \<lparr>Method = ''users.get'', Token = [], Values = [(''v'', [''1''])]\<rparr>"

section \<open>Properties\<close>

subsection \<open>The response processor\<close>

lemma To_trace_cases:
  "res_trace (To dec methods d response) =
     (case snd (json_Decode dec (input d) response) of
        Some e \<Rightarrow> [EvDecode]
      | None \<Rightarrow> [EvDecode, EvServerError]) @ (if rd_closer (input d) then [EvClose] else [])"
  by (simp add: To_def Let_def split: prod.splits option.splits)

lemma To_err_cases:
  "res_err (To dec methods d response) =
     (case snd (json_Decode dec (input d) response) of
        Some e \<Rightarrow> Some e
      | None \<Rightarrow> ServerError methods (fst (json_Decode dec (input d) response)))"
  by (simp add: To_def Let_def split: prod.splits option.splits)

lemma To_target:
  "res_target (To dec methods d response) = fst (json_Decode dec (input d) response)"
  by (simp add: To_def Let_def split: prod.splits option.splits)

lemma Raw_trace_cases:
  "res_trace (Raw dec unm em d v) =
     res_trace (To dec (RawResponse_methods em) d emptyRawResponse) @
     (case res_err (To dec (RawResponse_methods em) d emptyRawResponse) of
        Some e \<Rightarrow> []
      | None \<Rightarrow> [EvUnmarshal])"
  by (simp add: Raw_def Let_def split: prod.splits option.splits)

text \<open>C7: a Raw fragment passes through serialization unchanged. For every byte sequence,
  \<^verbatim>\<open>MarshalJSON\<close> returns the stored bytes and no error, \<^verbatim>\<open>UnmarshalJSON\<close> stores the bytes it
  is given, whatever they are, and returns no error, and decoding followed by encoding gives
  back the source bytes.\<close>

theorem Raw_json_identity:
  "Raw_MarshalJSON m = (m, None) \<and>
   Raw_UnmarshalJSON m0 data = (data, None) \<and>
   Raw_MarshalJSON (fst (Raw_UnmarshalJSON m0 data)) = (data, None)"
  by (simp add: Raw_MarshalJSON_def Raw_UnmarshalJSON_def)

text \<open>C3: when the input stream has a close operation, \<^verbatim>\<open>To\<close> and \<^verbatim>\<open>Raw\<close> close it exactly
  once, whatever the decoder, the error check and the second decoding do.\<close>

theorem close_exactly_once:
  assumes "rd_closer (input d)"
  shows "count_list (res_trace (To dec methods d response)) EvClose = 1 \<and>
         count_list (res_trace (Raw dec' unm em d v)) EvClose = 1"
  using assms
  by (simp add: To_trace_cases Raw_trace_cases split: option.splits)

theorem close_exactly_once_witness:
  "rd_closer (input (Process errorReader)) \<and>
   count_list (res_trace (To (\<lambda>b f t. (t, None)) Error_methods (Process errorReader)
      \<lparr>Info = None, Request = \<lparr>Method = [], Token = [], Values = []\<rparr>\<rparr>)) EvClose = 1 \<and>
   count_list (res_trace (Raw (\<lambda>b f t. (t, None)) (\<lambda>b (t::nat). (t, None)) Error_methods
      (Process errorReader) 0)) EvClose = 1"
  using close_exactly_once [of "Process errorReader"]
  by (simp add: Process_def errorReader_def)

text \<open>C4: when decoding the envelope fails, \<^verbatim>\<open>To\<close> returns that failure unchanged and the
  hook \<^verbatim>\<open>ServerError\<close> is not invoked: it is absent from the trace, and the result is the same
  for every method set.\<close>

theorem decode_failure_returned:
  assumes "snd (json_Decode dec (input d) response) = Some e"
  shows "res_err (To dec methods d response) = Some e \<and>
         EvServerError \<notin> set (res_trace (To dec methods d response)) \<and>
         To dec methods d response = To dec methods' d response"
  using assms
  by (cases "json_Decode dec (input d) response") (simp add: To_def Let_def)

theorem decode_failure_returned_witness:
  "snd (json_Decode (\<lambda>b f t. (t, None)) (input (Process errorReader)) (0::nat)) = Some ErrUnexpectedEOF \<and>
   res_err (To (\<lambda>b f t. (t, None)) \<lparr>ServerError = (\<lambda>t. None), setRequest = (\<lambda>q t. t)\<rparr>
      (Process errorReader) (0::nat)) = Some ErrUnexpectedEOF"
proof -
  have h: "snd (json_Decode (\<lambda>b f t. (t, None)) (input (Process errorReader)) (0::nat)) = Some ErrUnexpectedEOF"
    by (simp add: json_Decode_def Process_def errorReader_def)
  from decode_failure_returned [OF h] h show ?thesis by simp
qed


text \<open>C5: \<^verbatim>\<open>Raw\<close> decodes the envelope into a fresh \<^verbatim>\<open>RawResponse\<close> and runs the error check of
  \<^verbatim>\<open>To\<close>. A decode failure is returned before the error check; an error reported by the error
  check is returned and the fragment is not decoded, the caller's target staying as it was; only
  when both succeed are the captured bytes decoded into the caller's target.\<close>

theorem Raw_redecodes_only_on_success:
  assumes "json_Decode dec (input d) emptyRawResponse = (raw', derr)"
  shows
    "(derr = Some e \<longrightarrow>
        res_err (Raw dec unm em d v) = Some e \<and> res_target (Raw dec unm em d v) = v \<and>
        EvServerError \<notin> set (res_trace (Raw dec unm em d v)) \<and>
        EvUnmarshal \<notin> set (res_trace (Raw dec unm em d v))) \<and>
     (derr = None \<and> ServerError em (Error raw') = Some e \<longrightarrow>
        res_err (Raw dec unm em d v) = Some e \<and> res_target (Raw dec unm em d v) = v \<and>
        EvServerError \<in> set (res_trace (Raw dec unm em d v)) \<and>
        EvUnmarshal \<notin> set (res_trace (Raw dec unm em d v))) \<and>
     (derr = None \<and> ServerError em (Error raw') = None \<longrightarrow>
        (res_target (Raw dec unm em d v), res_err (Raw dec unm em d v)) =
          json_Unmarshal unm (Response raw') v \<and>
        res_trace (Raw dec unm em d v) =
          [EvDecode, EvServerError] @ (if rd_closer (input d) then [EvClose] else []) @
          [EvUnmarshal])"
  using assms
  by (auto simp: Raw_def To_def Let_def RawResponse_methods_def Raw_Bytes_def
      split: prod.splits option.splits)

theorem Raw_redecodes_only_on_success_witness:
  "res_err (Raw (\<lambda>b f t. (serverErrorBody, None)) (\<lambda>b (t::nat). (Suc t, None)) Error_methods
      (Process \<lparr>rd_data = ''{}'', rd_err = None, rd_closer = False\<rparr>) 0) =
     Some (ErrServer \<lparr>Code = 10, Message = ''Internal server error'', Params = [(''oauth'', ''1'')]\<rparr>) \<and>
   res_target (Raw (\<lambda>b f t. (serverErrorBody, None)) (\<lambda>b (t::nat). (Suc t, None)) Error_methods
      (Process \<lparr>rd_data = ''{}'', rd_err = None, rd_closer = False\<rparr>) 0) = 0 \<and>
   EvUnmarshal \<notin> set (res_trace (Raw (\<lambda>b f t. (serverErrorBody, None)) (\<lambda>b (t::nat). (Suc t, None))
      Error_methods (Process \<lparr>rd_data = ''{}'', rd_err = None, rd_closer = False\<rparr>) 0)) \<and>
   res_target (Raw
      (decodeEnvelope (scanOf listBody [(''response'', ''[1]'')]) asciiFold
        (RawResponse_fields (\<lambda>val e. (e, None))))
      (\<lambda>b (t::string). (b, None)) Error_methods
      (Process \<lparr>rd_data = listBody, rd_err = None, rd_closer = False\<rparr>) []) = ''[1]''"
proof -
  let ?dec = "decodeEnvelope (scanOf listBody [(''response'', ''[1]'')]) asciiFold
      (RawResponse_fields (\<lambda>val e. (e, None)))"
  have h: "json_Decode (\<lambda>b f t. (serverErrorBody, None))
      (input (Process \<lparr>rd_data = ''{}'', rd_err = None, rd_closer = False\<rparr>)) emptyRawResponse =
      (serverErrorBody, None)"
    by (simp add: json_Decode_def Process_def)
  have s: "ServerError Error_methods (Error serverErrorBody) =
      Some (ErrServer \<lparr>Code = 10, Message = ''Internal server error'', Params = [(''oauth'', ''1'')]\<rparr>)"
    by (simp add: Error_methods_def serverErrorBody_def)
  have h2: "json_Decode ?dec
      (input (Process \<lparr>rd_data = listBody, rd_err = None, rd_closer = False\<rparr>)) emptyRawResponse =
      (emptyRawResponse\<lparr>Response := ''[1]''\<rparr>, None)"
    by (simp add: json_Decode_def Process_def decodeEnvelope_def scanOf_def fieldOf_def
        RawResponse_fields_def Raw_UnmarshalJSON_def listBody_def)
  have s2: "ServerError Error_methods (Error (emptyRawResponse\<lparr>Response := ''[1]''\<rparr>)) = None"
    by (simp add: Error_methods_def emptyRawResponse_def)
  from Raw_redecodes_only_on_success [OF h, where em = Error_methods
      and unm = "\<lambda>b (t::nat). (Suc t, None)" and v = 0] s
    Raw_redecodes_only_on_success [OF h2, where em = Error_methods
      and unm = "\<lambda>b (t::string). (b, None)" and v = "[]"] s2
  show ?thesis by (simp add: json_Unmarshal_def)
qed

lemma decodeMembers_unmatched:
  "\<forall>m \<in> set ms. fieldOf equalFold (fst m) = None \<Longrightarrow>
     decodeMembers equalFold layout ms target saved = (target, saved)"
  by (induction ms) simp_all

text \<open>C10: for every well-formed envelope none of whose members is stored in the field
  \<^verbatim>\<open>error\<close> or in the field \<^verbatim>\<open>response\<close>, \<^verbatim>\<open>Raw\<close> closes the stream, passes the error check on the
  \<^verbatim>\<open>RawResponse\<close> it started from, and returns the syntax error of the second decoding, whose
  input is the empty fragment, the caller's target staying as it was; \<^verbatim>\<open>To\<close> on the same input
  returns no error, for every target that reports no error before the decoding.\<close>

theorem Raw_fails_without_response_field:
  assumes "rd_data (input d) \<noteq> []"
    and "scan (rd_data (input d)) (rd_err (input d)) = Inr ms"
    and "\<forall>m \<in> set ms. fieldOf equalFold (fst m) = None"
    and "ServerError em (Error emptyRawResponse) = None"
    and "ServerError methods target = None"
  shows "Raw (decodeEnvelope scan equalFold (RawResponse_fields decError)) unm em d v =
      \<lparr>res_err = Some (SyntaxError ''unexpected end of JSON input''), res_target = v,
       res_trace = [EvDecode, EvServerError] @ (if rd_closer (input d) then [EvClose] else []) @
         [EvUnmarshal]\<rparr> \<and>
    To (decodeEnvelope scan equalFold layout) methods d target =
      \<lparr>res_err = None, res_target = target,
       res_trace = [EvDecode, EvServerError] @ (if rd_closer (input d) then [EvClose] else [])\<rparr>"
proof -
  have dec: "json_Decode (decodeEnvelope scan equalFold fs) (input d) t = (t, None)" for fs and t :: 'c
    using assms(1,2,3) by (simp add: json_Decode_def decodeEnvelope_def decodeMembers_unmatched)
  have raw: "Response emptyRawResponse = []"
    by (simp add: emptyRawResponse_def)
  show ?thesis
    using assms(4,5)
    by (simp add: Raw_def To_def Let_def dec RawResponse_methods_def json_Unmarshal_def
        Raw_Bytes_def raw)
qed

theorem Raw_fails_without_response_field_witness:
  "rd_data (input (Process \<lparr>rd_data = okBody, rd_err = None, rd_closer = True\<rparr>)) \<noteq> [] \<and>
   scanOf okBody [(''ok'', ''1'')] okBody None = Inr [(''ok'', ''1'')] \<and>
   fieldOf asciiFold ''ok'' = None \<and>
   Raw (decodeEnvelope (scanOf okBody [(''ok'', ''1'')]) asciiFold
       (RawResponse_fields (\<lambda>val e. (e, None))))
     (\<lambda>b (t::nat). (Suc t, None)) Error_methods
     (Process \<lparr>rd_data = okBody, rd_err = None, rd_closer = True\<rparr>) 0 =
     \<lparr>res_err = Some (SyntaxError ''unexpected end of JSON input''), res_target = 0,
      res_trace = [EvDecode, EvServerError, EvClose, EvUnmarshal]\<rparr> \<and>
   To (decodeEnvelope (scanOf okBody [(''ok'', ''1'')]) asciiFold
       (RawResponse_fields (\<lambda>val e. (e, None))))
     (RawResponse_methods Error_methods)
     (Process \<lparr>rd_data = okBody, rd_err = None, rd_closer = True\<rparr>) emptyRawResponse =
     \<lparr>res_err = None, res_target = emptyRawResponse,
      res_trace = [EvDecode, EvServerError, EvClose]\<rparr>"
proof -
  let ?d = "Process \<lparr>rd_data = okBody, rd_err = None, rd_closer = True\<rparr>"
  have h1: "rd_data (input ?d) \<noteq> []"
    by (simp add: Process_def okBody_def)
  have h2: "scanOf okBody [(''ok'', ''1'')] (rd_data (input ?d)) (rd_err (input ?d)) =
      Inr [(''ok'', ''1'')]"
    by (simp add: Process_def scanOf_def)
  have f: "fieldOf asciiFold ''ok'' = None"
    by (simp add: fieldOf_def asciiFold_def toLowerByte_def inRange_def)
  then have h3: "\<forall>m \<in> set [(''ok'', ''1'')]. fieldOf asciiFold (fst m) = None"
    by simp
  have h4: "ServerError Error_methods (Error emptyRawResponse) = None"
    by (simp add: Error_methods_def emptyRawResponse_def)
  have h5: "ServerError (RawResponse_methods Error_methods) emptyRawResponse = None"
    by (simp add: RawResponse_methods_def h4)
  from Raw_fails_without_response_field [where d = ?d
      and scan = "scanOf okBody [(''ok'', ''1'')]" and ms = "[(''ok'', ''1'')]"
      and equalFold = asciiFold and em = Error_methods
      and methods = "RawResponse_methods Error_methods" and target = emptyRawResponse
      and decError = "\<lambda>val e. (e, None)" and unm = "\<lambda>b (t::nat). (Suc t, None)" and v = 0
      and layout = "RawResponse_fields (\<lambda>val e. (e, None))", OF h1 h2 h3 h4 h5] h1 f
  show ?thesis
    by (simp add: Process_def scanOf_def)
qed


subsection \<open>Escaping and unescaping\<close>

lemma hexDigits_ishex: "n < 16 \<Longrightarrow> ishex (hexDigits ! n)"
proof -
  have "list_all ishex hexDigits"
    by (simp add: hexDigits_def ishex_def inRange_def)
  moreover assume "n < 16"
  ultimately show ?thesis
    by (simp add: list_all_length hexDigits_def)
qed

lemma hexDigits_unhex: "n < 16 \<Longrightarrow> unhex (hexDigits ! n) = n"
proof -
  assume n: "n < 16"
  have "map unhex hexDigits = [0..<16]"
    by code_simp
  moreover have "map unhex hexDigits ! n = unhex (hexDigits ! n)"
    using n by (intro nth_map) (simp add: hexDigits_def)
  ultimately show ?thesis
    using n by simp
qed

lemma hexDigits_mem: "n < 16 \<Longrightarrow> hexDigits ! n \<in> set hexDigits"
  by (rule nth_mem) (simp add: hexDigits_def)

lemma byte_nibbles:
  "(of_char c :: nat) div 16 < 16" "(of_char c :: nat) mod 16 < 16"
proof -
  have "(of_char c :: nat) < 16 * 16"
    using nat_of_char_less_256 [of c] by simp
  then show "(of_char c :: nat) div 16 < 16"
    by (simp only: less_mult_imp_div_less)
  show "(of_char c :: nat) mod 16 < 16"
    by simp
qed

lemma byte_of_nibbles: "char_of ((of_char c :: nat) div 16 * 16 + of_char c mod 16) = c"
  by simp

lemma percent_escaped: "shouldEscape (CHR ''%'') mode"
  by (simp add: shouldEscape_def isAlnum_def inRange_def)

lemma unescape_escapeByte:
  "unescape (escapeByte encodePath c @ t) encodePath =
     (case unescape t encodePath of Inl e \<Rightarrow> Inl e | Inr t' \<Rightarrow> Inr (c # t'))"
proof (cases "shouldEscape c encodePath")
  case True
  then show ?thesis
    by (simp add: escapeByte_def hexDigits_ishex hexDigits_unhex byte_nibbles split: sum.splits)
next
  case False
  then have "c \<noteq> CHR ''%''"
    using percent_escaped by blast
  with False show ?thesis
    by (simp add: escapeByte_def split: sum.splits)
qed

lemma unescape_escape: "unescape (escape s encodePath) encodePath = Inr s"
  by (induction s) (simp_all add: escape_def unescape_escapeByte)

text \<open>A byte that is always escaped, and is neither a percent sign, a plus sign nor a
  hexadecimal digit, does not occur in escaped text.\<close>

lemma escapeByte_avoids:
  "shouldEscape x mode \<Longrightarrow> x \<notin> set hexDigits \<Longrightarrow> x \<noteq> CHR ''%'' \<Longrightarrow> x \<noteq> CHR ''+''
    \<Longrightarrow> x \<notin> set (escapeByte mode c)"
  using hexDigits_mem [OF byte_nibbles(1), of c] hexDigits_mem [OF byte_nibbles(2), of c]
  by (auto simp: escapeByte_def)

lemma escape_avoids:
  "shouldEscape x mode \<Longrightarrow> x \<notin> set hexDigits \<Longrightarrow> x \<noteq> CHR ''%'' \<Longrightarrow> x \<noteq> CHR ''+''
    \<Longrightarrow> x \<notin> set (escape s mode)"
  by (induction s) (simp_all add: escape_def escapeByte_avoids)

lemma hash_not_in_escape: "CHR ''#'' \<notin> set (escape s mode)"
  by (rule escape_avoids) (simp_all add: shouldEscape_def isAlnum_def inRange_def hexDigits_def)

lemma question_not_in_escaped_path: "CHR ''?'' \<notin> set (escape s encodePath)"
  by (rule escape_avoids) (simp_all add: shouldEscape_def isAlnum_def inRange_def hexDigits_def)

lemma escape_rooted: "escape (CHR ''/'' # p) encodePath = CHR ''/'' # escape p encodePath"
  by (simp add: escape_def escapeByte_def shouldEscape_def isAlnum_def inRange_def)

subsection \<open>Encoded queries, cleaned paths and \<^verbatim>\<open>split\<close>\<close>

lemma neverWritten_escape: "neverWritten x \<Longrightarrow> x \<notin> set (escape s encodePath)"
  "neverWritten x \<Longrightarrow> x \<notin> set (QueryEscape s)"
  unfolding QueryEscape_def by (rule escape_avoids; simp add: neverWritten_def)+

lemma Encode_value_avoids:
  "neverWritten x \<Longrightarrow> x \<notin> set buf \<Longrightarrow> x \<notin> set pre \<Longrightarrow>
     x \<notin> set (foldl (Encode_value pre) buf xs)"
proof (induction xs arbitrary: buf)
  case Nil
  then show ?case by simp
next
  case (Cons a xs)
  have "x \<notin> set (Encode_value pre buf a)"
    using Cons.prems neverWritten_escape(2) [of x a]
    by (auto simp: Encode_value_def neverWritten_def)
  then show ?case
    using Cons by simp
qed

lemma Encode_key_avoids:
  "neverWritten x \<Longrightarrow> x \<notin> set buf \<Longrightarrow> x \<notin> set (foldl (Encode_key v) buf ks)"
proof (induction ks arbitrary: buf)
  case Nil
  then show ?case by simp
next
  case (Cons k ks)
  have "x \<notin> set (QueryEscape k @ ''='')"
    using Cons.prems(1) neverWritten_escape(2) [of x k] by (auto simp: neverWritten_def)
  then have "x \<notin> set (Encode_key v buf k)"
    unfolding Encode_key_def using Cons.prems by (intro Encode_value_avoids)
  then show ?case
    using Cons by simp
qed

lemma Encode_avoids: "neverWritten x \<Longrightarrow> x \<notin> set (Values_Encode v)"
  by (simp add: Values_Encode_def Encode_key_avoids)

lemma neverWritten_hash: "neverWritten (CHR ''#'')"
  by (simp add: neverWritten_def shouldEscape_def isAlnum_def inRange_def hexDigits_def)

lemma CTL_code: "isCTLByte x \<Longrightarrow> (of_char x :: nat) < 32 \<or> (of_char x :: nat) = 127"
  by (auto simp: isCTLByte_def less_char_def)

lemma isAlnum_code: "isAlnum x \<Longrightarrow> 32 < (of_char x :: nat) \<and> (of_char x :: nat) < 127"
  by (auto simp: isAlnum_def inRange_def less_eq_char_def)

lemma mark_code:
  "x \<in> set ''-_.~$&+,/:;=?@%'' \<or> x \<in> set hexDigits \<Longrightarrow>
     32 < (of_char x :: nat) \<and> (of_char x :: nat) < 127"
  by (auto simp: hexDigits_def)

lemma neverWritten_CTL:
  assumes "isCTLByte x"
  shows "neverWritten x"
proof -
  have n: "\<not> (32 < (of_char x :: nat) \<and> (of_char x :: nat) < 127)"
    using CTL_code [OF assms] by auto
  have a: "\<not> isAlnum x"
    using n isAlnum_code by blast
  have m: "\<not> (x \<in> set ''-_.~$&+,/:;=?@%'' \<or> x \<in> set hexDigits)"
    using n mark_code by blast
  have "shouldEscape x mode" for mode
    using a m by (simp add: shouldEscape_def)
  then show ?thesis
    using m by (simp add: neverWritten_def)
qed

lemma hash_not_in_Encode: "CHR ''#'' \<notin> set (Values_Encode v)"
  by (rule Encode_avoids [OF neverWritten_hash])

lemma no_CTL_in_Encode: "\<not> stringContainsCTLByte (Values_Encode v)"
  using Encode_avoids neverWritten_CTL by (auto simp: stringContainsCTLByte_def list_ex_iff)

lemma no_CTL_in_escaped_path: "\<not> stringContainsCTLByte (escape s encodePath)"
  using neverWritten_escape(1) neverWritten_CTL
  by (auto simp: stringContainsCTLByte_def list_ex_iff)

lemma backtrack_ge: "dotdot \<le> w \<Longrightarrow> dotdot \<le> backtrack dotdot buf w"
  by (induction dotdot buf w rule: backtrack.induct) (subst backtrack.simps, auto)

lemma clean_loop_rooted:
  "rooted \<Longrightarrow> dotdot = Suc 0 \<Longrightarrow> out \<noteq> [] \<Longrightarrow> hd out = CHR ''/'' \<Longrightarrow>
     \<exists>t. clean_loop rooted dotdot out rest = CHR ''/'' # t"
proof (induction rooted dotdot out rest rule: clean_loop.induct)
  case (1 rooted dotdot out)
  then show ?case by (cases out) simp_all
next
  case (2 rooted dotdot out c rest)
  have bt: "length out > Suc 0 \<Longrightarrow>
      take (backtrack (Suc 0) out (length out - 1)) out \<noteq> [] \<and>
      hd (take (backtrack (Suc 0) out (length out - 1)) out) = CHR ''/''"
  proof -
    assume l: "length out > Suc 0"
    then have "Suc 0 \<le> backtrack (Suc 0) out (length out - 1)"
      by (intro backtrack_ge) simp
    with "2.prems" show ?thesis by (cases out; cases "backtrack (Suc 0) out (length out - 1)") simp_all
  qed
  show ?case
    using 2 bt by (auto simp: Let_def)
qed

lemma Clean_rooted: "\<exists>t. Clean (CHR ''/'' # p) = CHR ''/'' # t"
proof -
  obtain t where "clean_loop True 1 ''/'' p = CHR ''/'' # t"
    using clean_loop_rooted [of True 1 "''/''" p] by auto
  then show ?thesis by (simp add: Clean_def)
qed

lemma path_Join_rooted: "\<exists>t. path_Join [defaultPath, m] = CHR ''/'' # t"
proof -
  have "path_Join [defaultPath, m] = Clean (CHR ''/'' # (''method//'' @ m))"
    by (simp add: path_Join_def defaultPath_def)
  then show ?thesis using Clean_rooted by simp
qed

lemma split_absent: "c \<notin> set s \<Longrightarrow> split s c cutc = (s, [])"
  by (simp add: split_def)

lemma takeWhile_first: "c \<notin> set xs \<Longrightarrow> takeWhile (\<lambda>x. x \<noteq> c) (xs @ c # ys) = xs"
  by (induction xs) auto

lemma dropWhile_first: "c \<notin> set xs \<Longrightarrow> dropWhile (\<lambda>x. x \<noteq> c) (xs @ c # ys) = c # ys"
  by (induction xs) auto

lemma split_first:
  "c \<notin> set xs \<Longrightarrow> split (xs @ c # ys) c cutc = (xs, if cutc then ys else c # ys)"
  by (simp add: split_def takeWhile_first dropWhile_first)

subsection \<open>Parsing the URL that \<^verbatim>\<open>Request.HTTP\<close> builds\<close>

lemma parse_https:
  assumes e: "CHR ''?'' \<notin> set e"
    and u: "unescape e encodePath = Inr p"
    and ctl: "\<not> stringContainsCTLByte e" "\<not> stringContainsCTLByte q"
  shows "parse (''https://api.vk.com/'' @ e @ (if q \<noteq> [] then CHR ''?'' # q else [])) False =
    Inr (emptyURL\<lparr>Scheme := ''https'', RawQuery := q, User := None, Host := ''api.vk.com'',
      Path := CHR ''/'' # p\<rparr>)"
proof -
  let ?qs = "if q \<noteq> [] then CHR ''?'' # q else []"
  let ?s = "''https://api.vk.com/'' @ e @ ?qs"
  have gs: "getscheme ?s = Inr (''https'', ''//api.vk.com/'' @ e @ ?qs)"
    by (simp add: getscheme_def inRange_def)
  have sp: "split ((''//api.vk.com/'' @ e) @ ?qs) (CHR ''?'') True = (''//api.vk.com/'' @ e, q)"
  proof (cases "q = []")
    case True
    then show ?thesis using e by (simp add: split_absent)
  next
    case False
    then show ?thesis
      using e split_first [of "CHR ''?''" "''//api.vk.com/'' @ e" q True] by simp
  qed
  have sp2: "split (''api.vk.com'' @ CHR ''/'' # e) (CHR ''/'') False = (''api.vk.com'', CHR ''/'' # e)"
    using split_first [of "CHR ''/''" "''api.vk.com''" e False] by simp
  have pa: "parseAuthority ''api.vk.com'' = Inr (None, ''api.vk.com'')"
    by (simp add: parseAuthority_def splitLast_def)
  have ne: "?s \<noteq> []" "?s \<noteq> ''*''"
    by simp_all
  have nc: "\<not> stringContainsCTLByte ?s"
    using ctl by (simp add: stringContainsCTLByte_def isCTLByte_def)
  have lower: "map toLowerByte ''https'' = ''https''"
    by (simp add: toLowerByte_def inRange_def)
  show ?thesis
    unfolding parse_def
    using sp sp2 nc
    by (simp add: gs [simplified] pa u toLowerByte_def inRange_def emptyURL_def strings_HasPrefix_def Let_def
        del: split_paired_All)
qed


lemma Parse_HTTP_url: "Parse (URL_String (HTTP_url r)) = Inr (HTTP_url r)"
proof -
  obtain t where t: "path_Join [defaultPath, Method r] = CHR ''/'' # t"
    using path_Join_rooted by blast
  let ?q = "Values_Encode (HTTP_values r)"
  let ?e = "escape t encodePath"
  let ?s = "''https://api.vk.com/'' @ ?e @ (if ?q \<noteq> [] then CHR ''?'' # ?q else [])"
  have s: "URL_String (HTTP_url r) = ?s"
    by (simp add: URL_String_def HTTP_url_def emptyURL_def defaultHost_def defaultScheme_def t
        escape_rooted)
  have "CHR ''#'' \<notin> set ?s"
    using hash_not_in_escape [of t encodePath] hash_not_in_Encode [of "HTTP_values r"] by simp
  then have sp: "split ?s (CHR ''#'') True = (?s, [])"
    by (rule split_absent)
  have p: "parse ?s False =
      Inr (emptyURL\<lparr>Scheme := ''https'', RawQuery := ?q, User := None, Host := ''api.vk.com'',
        Path := CHR ''/'' # t\<rparr>)"
    by (rule parse_https [OF question_not_in_escaped_path unescape_escape
          no_CTL_in_escaped_path no_CTL_in_Encode])
  have "Parse ?s =
      Inr (emptyURL\<lparr>Scheme := ''https'', RawQuery := ?q, User := None, Host := ''api.vk.com'',
        Path := CHR ''/'' # t\<rparr>)"
    unfolding Parse_def sp by (simp only: Let_def prod.case p sum.case refl if_True)
  then show ?thesis
    unfolding s by (simp add: HTTP_url_def emptyURL_def defaultHost_def defaultScheme_def t)
qed

lemma HTTP_url_Host: "Host (HTTP_url r) = defaultHost"
  by (simp add: HTTP_url_def)

lemma HTTP_returns:
  "HTTP r = Returns (Some \<lparr>req_Method = defaultMethod, req_URL = HTTP_url r, req_Host = defaultHost\<rparr>)"
  by (simp add: HTTP_def http_NewRequest_def Parse_HTTP_url must_def HTTP_url_Host)

subsection \<open>\<^verbatim>\<open>Values.Encode\<close> as a form encoding\<close>

lemma strings_Join_Cons:
  "strings_Join (a # xs) sep = (if xs = [] then a else a @ sep @ strings_Join xs sep)"
  by (cases xs) simp_all

lemma Encode_value_fold:
  "foldl (Encode_value (QueryEscape k @ ''='')) buf xs =
     (if xs = [] then buf
      else (if buf \<noteq> [] then buf @ ''&'' else []) @ formEncode (map (Pair k) xs))"
proof (induction xs arbitrary: buf)
  case Nil
  then show ?case by simp
next
  case (Cons x xs)
  have "foldl (Encode_value (QueryEscape k @ ''='')) buf (x # xs) =
      foldl (Encode_value (QueryEscape k @ ''='')) (Encode_value (QueryEscape k @ ''='') buf x) xs"
    by simp
  also have "\<dots> =
      (if xs = [] then Encode_value (QueryEscape k @ ''='') buf x
       else (Encode_value (QueryEscape k @ ''='') buf x @ ''&'') @ formEncode (map (Pair k) xs))"
    by (simp add: Cons.IH Encode_value_def)
  also have "\<dots> =
      (if buf \<noteq> [] then buf @ ''&'' else []) @ formEncode (map (Pair k) (x # xs))"
    by (simp add: Encode_value_def formEncode_def formPair_def strings_Join_Cons)
  finally show ?case by simp
qed

lemma formEncode_append:
  "formEncode (ps @ qs) =
     (if ps = [] then formEncode qs else if qs = [] then formEncode ps
      else formEncode ps @ ''&'' @ formEncode qs)"
  by (induction ps) (auto simp: formEncode_def strings_Join_Cons)

lemma formEncode_empty: "formEncode ps = [] \<longleftrightarrow> ps = []"
  by (cases ps) (auto simp: formEncode_def strings_Join_Cons formPair_def)

lemma Encode_key_fold:
  "foldl (Encode_key v) (formEncode ps) ks = formEncode (ps @ pairsOf v ks)"
proof (induction ks arbitrary: ps)
  case Nil
  then show ?case by (simp add: pairsOf_def)
next
  case (Cons k ks)
  have "Encode_key v (formEncode ps) k = formEncode (ps @ map (Pair k) (values_index v k))"
    by (simp add: Encode_key_def Encode_value_fold formEncode_append formEncode_empty)
  then show ?case
    using Cons.IH [of "ps @ map (Pair k) (values_index v k)"] by (simp add: pairsOf_def)
qed

lemma Values_Encode_pairs: "Values_Encode v = formEncode (encodedPairs v)"
  using Encode_key_fold [of v "[]" "sort (map fst v)"]
  by (simp add: Values_Encode_def encodedPairs_def formEncode_def)

subsection \<open>Sorting pairs by key\<close>

lemma mset_eq_by_key:
  assumes "\<And>k. filter (\<lambda>p. f p = k) xs = filter (\<lambda>p. f p = k) ys"
  shows "mset xs = mset ys"
proof (rule multiset_eqI)
  fix p
  have "count (mset xs) p = count (mset (filter (\<lambda>q. f q = f p) xs)) p"
    by simp
  also have "\<dots> = count (mset (filter (\<lambda>q. f q = f p) ys)) p"
    by (simp only: assms)
  also have "\<dots> = count (mset ys) p"
    by simp
  finally show "count (mset xs) p = count (mset ys) p" .
qed

lemma sort_key_by_key:
  assumes "\<And>k. filter (\<lambda>p. f p = k) ys = filter (\<lambda>p. f p = k) xs"
    and "sorted (map f ys)"
  shows "sort_key f xs = ys"
proof (rule properties_for_sort_key)
  show "mset ys = mset xs"
    using assms(1) by (rule mset_eq_by_key)
  show "sorted (map f ys)" by fact
  fix k
  have "(\<lambda>x. f k = f x) = (\<lambda>p. f p = f k)" by auto
  then show "filter (\<lambda>x. f k = f x) ys = filter (\<lambda>x. f k = f x) xs"
    using assms(1) [of "f k"] by simp
qed

lemma filter_key_map_Pair:
  "filter (\<lambda>p. fst p = k) (map (Pair k') xs) = (if k' = k then map (Pair k') xs else [])"
  by (induction xs) auto

lemma filter_pairsOf:
  "distinct ks \<Longrightarrow>
     filter (\<lambda>p. fst p = k) (pairsOf v ks) = (if k \<in> set ks then map (Pair k) (values_index v k) else [])"
  by (induction ks) (auto simp: pairsOf_def filter_key_map_Pair)

lemma sorted_pairsOf: "sorted ks \<Longrightarrow> sorted (map fst (pairsOf v ks))"
proof (induction ks)
  case Nil
  then show ?case by (simp add: pairsOf_def)
next
  case (Cons k ks)
  have "map fst (pairsOf v (k # ks)) = replicate (length (values_index v k)) k @ map fst (pairsOf v ks)"
    by (simp add: pairsOf_def comp_def map_replicate_const)
  moreover have "set (map fst (pairsOf v ks)) \<subseteq> set ks"
    by (auto simp: pairsOf_def)
  ultimately show ?case
    using Cons by (auto simp: sorted_append sorted_replicate)
qed

lemma values_index_absent: "k \<notin> fst ` set v \<Longrightarrow> values_index v k = []"
  by (simp add: values_index_def map_of_eq_None_iff [THEN iffD2])

lemma filter_encodedPairs:
  assumes "distinct (map fst v)"
  shows "filter (\<lambda>p. fst p = k) (encodedPairs v) = map (Pair k) (values_index v k)"
proof -
  have "distinct (sort (map fst v))" using assms by simp
  then show ?thesis
    by (simp add: encodedPairs_def filter_pairsOf values_index_absent)
qed

lemma sorted_encodedPairs: "sorted (map fst (encodedPairs v))"
  by (simp add: encodedPairs_def sorted_pairsOf)

lemma filter_flatten:
  "distinct (map fst v) \<Longrightarrow> filter (\<lambda>p. fst p = k) (flatten v) = map (Pair k) (values_index v k)"
proof (induction v)
  case Nil
  then show ?case by (simp add: flatten_def values_index_def)
next
  case (Cons a v)
  obtain k' vs where a: "a = (k', vs)" by (cases a)
  show ?case
  proof (cases "k' = k")
    case True
    then have "k \<notin> fst ` set v" using Cons.prems a by auto
    then have "values_index v k = []" by (rule values_index_absent)
    then show ?thesis
      using Cons a True by (simp add: flatten_def values_index_def filter_key_map_Pair)
  next
    case False
    then show ?thesis
      using Cons a by (simp add: flatten_def values_index_def filter_key_map_Pair)
  qed
qed

subsection \<open>The parameter set of \<^verbatim>\<open>Request.HTTP\<close>\<close>

lemma update_absent: "k \<notin> fst ` set al \<Longrightarrow> AList.update k v al = al @ [(k, v)]"
  by (induction al) auto

lemma copyParams_distinct:
  "distinct (map fst (m @ vs)) \<Longrightarrow> copyParams vs m = m @ vs"
proof (induction vs arbitrary: m)
  case Nil
  then show ?case by (simp add: copyParams_def)
next
  case (Cons a vs)
  obtain k v where a: "a = (k, v)" by (cases a)
  have "k \<notin> fst ` set m" using Cons.prems a by auto
  then have "values_assign k v m = m @ [(k, v)]"
    by (simp add: values_assign_def update_absent)
  moreover have "copyParams vs (m @ [(k, v)]) = (m @ [(k, v)]) @ vs"
    using Cons.prems a by (intro Cons.IH) simp
  ultimately show ?case using a by (simp add: copyParams_def)
qed

lemma Values_Add_distinct: "distinct (map fst v) \<Longrightarrow> distinct (map fst (Values_Add k x v))"
  by (simp add: Values_Add_def values_assign_def distinct_update)

lemma values_index_Add:
  "values_index (Values_Add k x v) k' = (if k' = k then values_index v k @ [x] else values_index v k')"
  by (simp add: Values_Add_def values_assign_def values_index_def update_conv')

lemma HTTP_values_distinct:
  "distinct (map fst (Values r)) \<Longrightarrow> distinct (map fst (HTTP_values r))"
  using copyParams_distinct [of "[]" "Values r"]
  by (simp add: HTTP_values_def Let_def Values_Add_distinct)

lemma filter_key_snd: "map (Pair k \<circ> snd) (filter (\<lambda>p. fst p = k) ps) = filter (\<lambda>p. fst p = k) ps"
  by (induction ps) auto

lemma HTTP_values_index:
  "distinct (map fst (Values r)) \<Longrightarrow>
     values_index (HTTP_values r) k =
       values_index (Values r) k @ map snd (filter (\<lambda>p. fst p = k) (protocolPairs r))"
  using copyParams_distinct [of "[]" "Values r"]
  by (simp add: HTTP_values_def Let_def values_index_Add protocolPairs_def
      paramVersion_def paramHTTPS_def paramToken_def)

lemma encodedPairs_HTTP_values:
  assumes "distinct (map fst (Values r))"
  shows "encodedPairs (HTTP_values r) = sort_key fst (spec_query_pairs r)"
proof (rule sym, rule sort_key_by_key)
  show "sorted (map fst (encodedPairs (HTTP_values r)))"
    by (rule sorted_encodedPairs)
  fix k
  show "filter (\<lambda>p. fst p = k) (encodedPairs (HTTP_values r)) =
      filter (\<lambda>p. fst p = k) (spec_query_pairs r)"
    using assms
    by (simp add: filter_encodedPairs HTTP_values_distinct HTTP_values_index spec_query_pairs_def
        filter_flatten filter_key_snd)
qed

lemma clean_loop_segment:
  assumes "m \<noteq> []" "CHR ''/'' \<notin> set m" "m \<noteq> ''.''" "m \<noteq> ''..''"
  shows "clean_loop True (Suc 0) ''/method'' m = ''/method/'' @ m"
proof -
  obtain c rest where m: "m = c # rest" using assms(1) by (cases m) auto
  have c: "c \<noteq> CHR ''/''" "CHR ''/'' \<notin> set rest" using assms(2) m by auto
  have dr: "dropWhile notSlash rest = []" "takeWhile notSlash rest = rest"
    using c(2) by (auto simp: notSlash_def takeWhile_eq_all_conv dropWhile_eq_Nil_conv)
  have c2: "\<not> (c = CHR ''.'' \<and> (case rest of [] \<Rightarrow> True | d # x \<Rightarrow> d = CHR ''/''))"
    using assms(3) c(2) m by (cases rest) auto
  have c3: "\<not> (c = CHR ''.'' \<and>
      (case rest of [] \<Rightarrow> False
       | d # rest2 \<Rightarrow> d = CHR ''.'' \<and> (case rest2 of [] \<Rightarrow> True | e # x \<Rightarrow> e = CHR ''/'')))"
  proof (cases rest)
    case Nil
    then show ?thesis by simp
  next
    case (Cons d rest2)
    then show ?thesis using assms(4) c(2) m by (cases rest2) auto
  qed
  have ns: "notSlash c" using c(1) by (simp add: notSlash_def)
  show ?thesis
    unfolding m
    by (subst clean_loop.simps(2)) (simp only: c c2 c3 if_False Let_def, simp add: ns dr)
qed

lemma clean_loop_prefix:
  "clean_loop True (Suc 0) ''/'' (''method//'' @ m) = clean_loop True (Suc 0) ''/method'' m"
  by (simp add: notSlash_def)

lemma path_Join_segment:
  assumes "m \<noteq> []" "CHR ''/'' \<notin> set m" "m \<noteq> ''.''" "m \<noteq> ''..''"
  shows "path_Join [defaultPath, m] = defaultPath @ m"
proof -
  have "path_Join [defaultPath, m] = Clean (CHR ''/'' # (''method//'' @ m))"
    by (simp add: path_Join_def defaultPath_def)
  also have "\<dots> = clean_loop True (Suc 0) ''/'' (''method//'' @ m)"
    using clean_loop_rooted [of True "Suc 0" "''/''" "''method//'' @ m"]
    by (auto simp: Clean_def simp del: clean_loop.simps)
  also have "\<dots> = ''/method/'' @ m"
    unfolding clean_loop_prefix using assms by (rule clean_loop_segment)
  finally show ?thesis by (simp add: defaultPath_def)
qed

subsection \<open>Request conversion\<close>

text \<open>C8: \<^verbatim>\<open>Request.HTTP\<close> is total. For every Request \<^verbatim>\<open>http.NewRequest\<close> accepts the URL that
  the conversion builds, so the conversion returns a descriptor and the panic of \<^verbatim>\<open>must\<close>, its
  only failure path, is never taken; \<^verbatim>\<open>must\<close> panics exactly on a non-nil error.\<close>

theorem HTTP_never_panics:
  "HTTP r =
     Returns (Some \<lparr>req_Method = defaultMethod, req_URL = HTTP_url r, req_Host = defaultHost\<rparr>) \<and>
   http_NewRequest defaultMethod (URL_String (HTTP_url r)) =
     (Some \<lparr>req_Method = defaultMethod, req_URL = HTTP_url r, req_Host = defaultHost\<rparr>, None) \<and>
   (\<forall>e. HTTP r \<noteq> Panics e) \<and>
   must None = Returns () \<and> must (Some e) = Panics e"
  by (simp add: HTTP_returns http_NewRequest_def Parse_HTTP_url HTTP_url_Host must_def)

theorem HTTP_never_panics_witness:
  "HTTP \<lparr>Method = ''a b?c#d%e'', Token = [], Values = []\<rparr> =
     Returns (Some \<lparr>req_Method = ''GET'',
       req_URL = \<lparr>Scheme = ''https'', Opaque = [], User = None, Host = ''api.vk.com'',
         Path = ''/method/a b?c#d%e'', RawQuery = ''https=1&v=5.35'', Fragment = []\<rparr>,
       req_Host = ''api.vk.com''\<rparr>)"
proof -
  have u: "HTTP_url \<lparr>Method = ''a b?c#d%e'', Token = [], Values = []\<rparr> =
      \<lparr>Scheme = ''https'', Opaque = [], User = None, Host = ''api.vk.com'',
        Path = ''/method/a b?c#d%e'', RawQuery = ''https=1&v=5.35'', Fragment = []\<rparr>"
    by (simp add: HTTP_url_def HTTP_values_def copyParams_def Values_Add_def values_assign_def
        values_index_def Values_Encode_def Encode_key_def Encode_value_def
        emptyURL_def path_Join_def Clean_def notSlash_def
        paramVersion_def paramHTTPS_def defaultPath_def defaultHost_def
        defaultScheme_def defaultVersion_def defaultHTTPS_def QueryEscape_def escape_def
        escapeByte_def shouldEscape_def isAlnum_def inRange_def)
  from HTTP_never_panics [of "\<lparr>Method = ''a b?c#d%e'', Token = [], Values = []\<rparr>"]
  show ?thesis
    by (simp add: u defaultMethod_def defaultHost_def)
qed

text \<open>C1, amended: for every Request with a non-empty token whose parameters form a map, the
  descriptor has the fixed host and the path \<^verbatim>\<open>path.Join\<close> of the fixed prefix and the method
  (the prefix followed by the method when the method is one clean path segment), and its query
  string is the form encoding of the caller's parameters and of version, https flag and token,
  sorted by key, the values of one key staying in their order.\<close>

theorem HTTP_descriptor:
  assumes "distinct (map fst (Values r))" and "Token r \<noteq> []"
  shows "HTTP r =
      Returns (Some \<lparr>req_Method = defaultMethod,
        req_URL = emptyURL\<lparr>Host := defaultHost, Scheme := defaultScheme,
          Path := path_Join [defaultPath, Method r],
          RawQuery := formEncode (sort_key fst (flatten (Values r) @
            [(paramVersion, defaultVersion), (paramHTTPS, defaultHTTPS), (paramToken, Token r)]))\<rparr>,
        req_Host = defaultHost\<rparr>) \<and>
    (Method r \<noteq> [] \<and> CHR ''/'' \<notin> set (Method r) \<and> Method r \<noteq> ''.'' \<and> Method r \<noteq> ''..'' \<longrightarrow>
      path_Join [defaultPath, Method r] = defaultPath @ Method r)"
proof -
  have "Values_Encode (HTTP_values r) = formEncode (sort_key fst (flatten (Values r) @
      [(paramVersion, defaultVersion), (paramHTTPS, defaultHTTPS), (paramToken, Token r)]))"
    using assms
    by (simp add: Values_Encode_pairs encodedPairs_HTTP_values spec_query_pairs_def
        protocolPairs_def)
  then show ?thesis
    by (simp add: HTTP_returns HTTP_url_def path_Join_segment)
qed

theorem HTTP_descriptor_witness:
  "distinct (map fst (Values testRequest)) \<and> Token testRequest \<noteq> [] \<and>
   HTTP testRequest =
     Returns (Some \<lparr>req_Method = ''GET'',
       req_URL = \<lparr>Scheme = ''https'', Opaque = [], User = None, Host = ''api.vk.com'',
         Path = ''/method/users.get'', RawQuery = ''access_token=token&foo=bar&https=1&v=5.35'',
         Fragment = []\<rparr>,
       req_Host = ''api.vk.com''\<rparr>)"
proof -
  have d: "distinct (map fst (Values testRequest))" and t: "Token testRequest \<noteq> []"
    by (simp_all add: testRequest_def)
  have m: "Method testRequest \<noteq> [] \<and> CHR ''/'' \<notin> set (Method testRequest) \<and>
      Method testRequest \<noteq> ''.'' \<and> Method testRequest \<noteq> ''..''"
    by (simp add: testRequest_def)
  have q: "formEncode (sort_key fst (flatten (Values testRequest) @
      [(paramVersion, defaultVersion), (paramHTTPS, defaultHTTPS), (paramToken, Token testRequest)])) =
      ''access_token=token&foo=bar&https=1&v=5.35''"
    by (simp add: testRequest_def flatten_def paramVersion_def paramHTTPS_def paramToken_def
        defaultVersion_def defaultHTTPS_def formEncode_def formPair_def QueryEscape_def escape_def
        escapeByte_def shouldEscape_def isAlnum_def inRange_def)
  from HTTP_descriptor [OF d t] m q d t show ?thesis
    by (simp add: emptyURL_def defaultMethod_def defaultHost_def defaultScheme_def
        defaultPath_def testRequest_def)
qed

theorem query_order_counterexample:
  "Token testRequest \<noteq> [] \<and>
   HTTP testRequest =
     Returns (Some \<lparr>req_Method = ''GET'',
       req_URL = \<lparr>Scheme = ''https'', Opaque = [], User = None, Host = ''api.vk.com'',
         Path = ''/method/users.get'', RawQuery = ''access_token=token&foo=bar&https=1&v=5.35'',
         Fragment = []\<rparr>,
       req_Host = ''api.vk.com''\<rparr>) \<and>
   spec_query testRequest = ''foo=bar&v=5.35&https=1&access_token=token'' \<and>
   RawQuery (HTTP_url testRequest) \<noteq> spec_query testRequest"
proof -
  have u: "HTTP_url testRequest =
      \<lparr>Scheme = ''https'', Opaque = [], User = None, Host = ''api.vk.com'',
        Path = ''/method/users.get'', RawQuery = ''access_token=token&foo=bar&https=1&v=5.35'',
        Fragment = []\<rparr>"
    by (simp add: HTTP_url_def HTTP_values_def copyParams_def Values_Add_def values_assign_def
        values_index_def Values_Encode_def Encode_key_def Encode_value_def
        testRequest_def emptyURL_def path_Join_def Clean_def notSlash_def
        paramVersion_def paramHTTPS_def paramToken_def defaultPath_def defaultHost_def
        defaultScheme_def defaultVersion_def defaultHTTPS_def QueryEscape_def escape_def
        escapeByte_def shouldEscape_def isAlnum_def inRange_def)
  have s: "spec_query testRequest = ''foo=bar&v=5.35&https=1&access_token=token''"
    by (simp add: spec_query_def spec_query_pairs_def protocolPairs_def testRequest_def
        flatten_def paramVersion_def paramHTTPS_def paramToken_def
        defaultVersion_def defaultHTTPS_def formEncode_def formPair_def QueryEscape_def escape_def
        escapeByte_def shouldEscape_def isAlnum_def inRange_def)
  show ?thesis
    by (simp add: HTTP_returns u s defaultMethod_def defaultHost_def) (simp add: testRequest_def)
qed

text \<open>C2, amended: for every Request whose parameters form a map, the query string carries,
  for each reserved key, first the caller's values for that key, in their order, and then the
  protocol's value: the protocol's value is appended to the caller's values, not substituted
  for them.\<close>

theorem reserved_key_appended:
  assumes "distinct (map fst (Values r))"
  shows "HTTP r =
      Returns (Some \<lparr>req_Method = defaultMethod, req_URL = HTTP_url r, req_Host = defaultHost\<rparr>) \<and>
    RawQuery (HTTP_url r) = formEncode (encodedPairs (HTTP_values r)) \<and>
    filter (\<lambda>p. fst p = paramVersion) (encodedPairs (HTTP_values r)) =
      map (Pair paramVersion) (values_index (Values r) paramVersion @ [defaultVersion]) \<and>
    filter (\<lambda>p. fst p = paramHTTPS) (encodedPairs (HTTP_values r)) =
      map (Pair paramHTTPS) (values_index (Values r) paramHTTPS @ [defaultHTTPS]) \<and>
    filter (\<lambda>p. fst p = paramToken) (encodedPairs (HTTP_values r)) =
      map (Pair paramToken) (values_index (Values r) paramToken @
        (if length (Token r) \<noteq> 0 then [Token r] else []))"
  using assms
  by (simp add: HTTP_returns HTTP_url_def Values_Encode_pairs filter_encodedPairs
      HTTP_values_distinct HTTP_values_index protocolPairs_def
      paramVersion_def paramHTTPS_def paramToken_def)

theorem reserved_key_appended_witness:
  "distinct (map fst (Values collidingRequest)) \<and>
   filter (\<lambda>p. fst p = paramVersion) (encodedPairs (HTTP_values collidingRequest)) =
     [(''v'', ''1''), (''v'', ''5.35'')]"
proof -
  have d: "distinct (map fst (Values collidingRequest))"
    by (simp add: collidingRequest_def)
  from reserved_key_appended [OF d] d show ?thesis
    by (simp add: collidingRequest_def values_index_def paramVersion_def defaultVersion_def)
qed

theorem reserved_key_counterexample:
  "paramVersion \<in> fst ` set (Values collidingRequest) \<and>
   HTTP collidingRequest =
     Returns (Some \<lparr>req_Method = ''GET'',
       req_URL = \<lparr>Scheme = ''https'', Opaque = [], User = None, Host = ''api.vk.com'',
         Path = ''/method/users.get'', RawQuery = ''https=1&v=1&v=5.35'', Fragment = []\<rparr>,
       req_Host = ''api.vk.com''\<rparr>) \<and>
   values_index (HTTP_values collidingRequest) paramVersion = [''1'', ''5.35''] \<and>
   values_index (HTTP_values collidingRequest) paramVersion \<noteq> [defaultVersion]"
proof -
  have v: "HTTP_values collidingRequest = [(''v'', [''1'', ''5.35'']), (''https'', [''1''])]"
    by (simp add: HTTP_values_def copyParams_def Values_Add_def values_assign_def
        values_index_def collidingRequest_def paramVersion_def paramHTTPS_def
        defaultVersion_def defaultHTTPS_def)
  have u: "HTTP_url collidingRequest =
      \<lparr>Scheme = ''https'', Opaque = [], User = None, Host = ''api.vk.com'',
        Path = ''/method/users.get'', RawQuery = ''https=1&v=1&v=5.35'', Fragment = []\<rparr>"
    unfolding HTTP_url_def v
    by (simp add: values_index_def Values_Encode_def Encode_key_def Encode_value_def
        collidingRequest_def emptyURL_def path_Join_def Clean_def notSlash_def
        defaultPath_def defaultHost_def defaultScheme_def QueryEscape_def escape_def
        escapeByte_def shouldEscape_def isAlnum_def inRange_def)
  show ?thesis
    unfolding v
    by (simp add: HTTP_returns u defaultMethod_def defaultHost_def values_index_def
        paramVersion_def defaultVersion_def) (simp add: collidingRequest_def)
qed

subsection \<open>The client\<close>

text \<open>C6: when the transport reports a failure, \<^verbatim>\<open>Client.Do\<close> returns that failure unchanged;
  when it returns a status code other than 200, \<^verbatim>\<open>Client.Do\<close> returns the fixed error
  \<^verbatim>\<open>ErrBadResponseCode\<close> whatever the body is, and the body is not decoded.\<close>

theorem Do_transport_failures:
  assumes "httpClient c
      (Some \<lparr>req_Method = defaultMethod, req_URL = HTTP_url request, req_Host = defaultHost\<rparr>) =
      (res, err)"
  shows "(err = Some e \<longrightarrow> do_out (Do dec methods c request response) = Returns (Some e)) \<and>
    (err = None \<and> res = Some res' \<and> StatusCode res' \<noteq> StatusOK \<longrightarrow>
       do_out (Do dec methods c request response) = Returns (Some ErrBadResponseCode) \<and>
       EvDecode \<notin> set (do_trace (Do dec methods c request response)) \<and>
       Do dec methods c request response = Do dec' methods c request response)"
  using assms by (simp add: Do_def HTTP_returns Let_def)

theorem Do_transport_failures_witness:
  "do_out (Do (\<lambda>b f t. (t, None)) Error_methods
      \<lparr>httpClient = (\<lambda>req. (Some \<lparr>StatusCode = 400,
         Body = \<lparr>rd_data = ''{}'', rd_err = None, rd_closer = True\<rparr>\<rparr>, None))\<rparr>
      \<lparr>Method = ''users.get'', Token = [], Values = []\<rparr> (Error emptyRawResponse)) =
     Returns (Some ErrBadResponseCode) \<and>
   do_out (Do (\<lambda>b f t. (t, None)) Error_methods
      \<lparr>httpClient = (\<lambda>req. (Some \<lparr>StatusCode = 400,
         Body = \<lparr>rd_data = ''{}'', rd_err = None, rd_closer = True\<rparr>\<rparr>, Some ErrEOF))\<rparr>
      \<lparr>Method = ''users.get'', Token = [], Values = []\<rparr> (Error emptyRawResponse)) =
     Returns (Some ErrEOF)"
proof -
  let ?res = "\<lparr>StatusCode = 400, Body = \<lparr>rd_data = ''{}'', rd_err = None, rd_closer = True\<rparr>\<rparr>"
  let ?q = "\<lparr>Method = ''users.get'', Token = [], Values = []\<rparr>"
  have h1: "httpClient \<lparr>httpClient = (\<lambda>req. (Some ?res, None))\<rparr>
      (Some \<lparr>req_Method = defaultMethod, req_URL = HTTP_url ?q, req_Host = defaultHost\<rparr>) =
      (Some ?res, None)"
    by simp
  have h2: "httpClient \<lparr>httpClient = (\<lambda>req. (Some ?res, Some ErrEOF))\<rparr>
      (Some \<lparr>req_Method = defaultMethod, req_URL = HTTP_url ?q, req_Host = defaultHost\<rparr>) =
      (Some ?res, Some ErrEOF)"
    by simp
  from Do_transport_failures [OF h1, where res' = ?res and dec = "\<lambda>b f t. (t, None)"
      and methods = Error_methods and response = "Error emptyRawResponse"]
    Do_transport_failures [OF h2, where e = ErrEOF and dec = "\<lambda>b f t. (t, None)"
      and methods = Error_methods and response = "Error emptyRawResponse"]
  show ?thesis by (simp add: StatusOK_def)
qed

lemma Do_unfold:
  assumes "httpClient c
      (Some \<lparr>req_Method = defaultMethod, req_URL = HTTP_url request, req_Host = defaultHost\<rparr>) =
      (res, err)"
  shows "Do dec methods c request response =
    (case err of
       Some e \<Rightarrow>
         \<lparr>do_out = Returns (Some e), do_target = setRequest methods request response,
          do_trace = [EvSetRequest, EvTransport]\<rparr>
     | None \<Rightarrow>
         (case res of
            None \<Rightarrow>
              \<lparr>do_out = Panics (ErrorString ''nil pointer dereference''),
               do_target = setRequest methods request response,
               do_trace = [EvSetRequest, EvTransport]\<rparr>
          | Some res' \<Rightarrow>
              (if StatusCode res' \<noteq> StatusOK then
                 \<lparr>do_out = Returns (Some ErrBadResponseCode),
                  do_target = setRequest methods request response,
                  do_trace = [EvSetRequest, EvTransport]\<rparr>
               else
                 \<lparr>do_out = Returns (res_err (To dec methods (Process (Body res'))
                    (setRequest methods request response))),
                  do_target = res_target (To dec methods (Process (Body res'))
                    (setRequest methods request response)),
                  do_trace = [EvSetRequest, EvTransport] @
                    res_trace (To dec methods (Process (Body res'))
                      (setRequest methods request response))\<rparr>)))"
  using assms by (simp add: Do_def HTTP_returns Let_def split: option.splits)

lemma json_Decode_preserves:
  "\<forall>b f t. get (fst (dec b f t)) = get t \<Longrightarrow> get (fst (json_Decode dec rd v)) = get v"
  by (simp add: json_Decode_def)

text \<open>C9: \<^verbatim>\<open>Client.Do\<close> attaches the Request to the target before it invokes the transport.
  On a transport error and on a bad status the target is the one it was given with the Request
  attached and nothing else has run; otherwise the decoder runs on the target with the Request
  attached, so a decoder that leaves the attachment alone leaves it on the target in every
  execution.\<close>

theorem Do_attaches_request_first:
  assumes "httpClient c
      (Some \<lparr>req_Method = defaultMethod, req_URL = HTTP_url request, req_Host = defaultHost\<rparr>) =
      (res, err)"
  shows "take 2 (do_trace (Do dec methods c request response)) = [EvSetRequest, EvTransport] \<and>
    (err = Some e \<longrightarrow>
       do_target (Do dec methods c request response) = setRequest methods request response \<and>
       do_trace (Do dec methods c request response) = [EvSetRequest, EvTransport]) \<and>
    (err = None \<and> res = Some res' \<and> StatusCode res' \<noteq> StatusOK \<longrightarrow>
       do_target (Do dec methods c request response) = setRequest methods request response \<and>
       do_trace (Do dec methods c request response) = [EvSetRequest, EvTransport]) \<and>
    (err = None \<and> res = Some res' \<and> StatusCode res' = StatusOK \<longrightarrow>
       do_target (Do dec methods c request response) =
         fst (json_Decode dec (Body res') (setRequest methods request response))) \<and>
    ((\<forall>b f t. get (fst (dec b f t)) = get t) \<longrightarrow>
       get (do_target (Do dec methods c request response)) =
         get (setRequest methods request response))"
  unfolding Do_unfold [OF assms]
  by (simp add: To_target Process_def json_Decode_preserves split: option.splits)

theorem Do_attaches_request_first_witness:
  "do_target (Do (\<lambda>b f t. (t, None)) Error_methods
      \<lparr>httpClient = (\<lambda>req. (Some \<lparr>StatusCode = 400,
         Body = \<lparr>rd_data = ''{}'', rd_err = None, rd_closer = True\<rparr>\<rparr>, None))\<rparr>
      \<lparr>Method = ''users.get'', Token = [], Values = []\<rparr> (Error emptyRawResponse)) =
     \<lparr>Info = None, Request = \<lparr>Method = ''users.get'', Token = [], Values = []\<rparr>\<rparr> \<and>
   Request (do_target (Do (\<lambda>b f t. (t\<lparr>Info := None\<rparr>, None)) Error_methods
      \<lparr>httpClient = (\<lambda>req. (Some \<lparr>StatusCode = 200,
         Body = \<lparr>rd_data = ''{}'', rd_err = None, rd_closer = True\<rparr>\<rparr>, None))\<rparr>
      \<lparr>Method = ''users.get'', Token = [], Values = []\<rparr> (Error emptyRawResponse))) =
     \<lparr>Method = ''users.get'', Token = [], Values = []\<rparr>"
proof -
  let ?bad = "\<lparr>StatusCode = 400, Body = \<lparr>rd_data = ''{}'', rd_err = None, rd_closer = True\<rparr>\<rparr>"
  let ?ok = "\<lparr>StatusCode = 200, Body = \<lparr>rd_data = ''{}'', rd_err = None, rd_closer = True\<rparr>\<rparr>"
  let ?q = "\<lparr>Method = ''users.get'', Token = [], Values = []\<rparr>"
  have h1: "httpClient \<lparr>httpClient = (\<lambda>req. (Some ?bad, None))\<rparr>
      (Some \<lparr>req_Method = defaultMethod, req_URL = HTTP_url ?q, req_Host = defaultHost\<rparr>) =
      (Some ?bad, None)"
    by simp
  have h2: "httpClient \<lparr>httpClient = (\<lambda>req. (Some ?ok, None))\<rparr>
      (Some \<lparr>req_Method = defaultMethod, req_URL = HTTP_url ?q, req_Host = defaultHost\<rparr>) =
      (Some ?ok, None)"
    by simp
  have p: "\<forall>b f t. Request (fst ((\<lambda>b f t. (t\<lparr>Info := None\<rparr>, None)) b f t)) = Request t"
    by simp
  from Do_attaches_request_first [OF h1, where res' = ?bad and dec = "\<lambda>b f t. (t, None)"
      and methods = Error_methods and response = "Error emptyRawResponse" and get = Request
      and e = ErrEOF]
    Do_attaches_request_first [OF h2, where dec = "\<lambda>b f t. (t\<lparr>Info := None\<rparr>, None)"
      and methods = Error_methods and response = "Error emptyRawResponse" and get = Request
      and res' = ?ok and e = ErrEOF] p
  show ?thesis by (simp add: StatusOK_def Error_methods_def emptyRawResponse_def json_Decode_def)
qed

end
